theory Spec2Isabelle
  imports Complex_Main "HOL-Library.AList"
begin

section \<open>Mesh export of the NIF add-on: a shallow embedding\<close>

text \<open>
  The theory embeds \<^verbatim>\<open>io_scene_niftools/modules/nif_export/geometry/mesh/__init__.py\<close>
  (class \<^verbatim>\<open>Mesh\<close>). Every Python function that is modelled keeps its name; the
  inline loops of \<^verbatim>\<open>export_tri_shapes\<close> are split into one function per loop, named
  after what the loop does, with the source lines quoted at each definition.

  Conventions.
  \<^item> Python floats are idealised as \<^typ>\<open>real\<close>: comparison against the tolerance,
    subtraction and division are exact. Rounding, infinities and NaN are outside the model.
  \<^item> A \<^verbatim>\<open>raise\<close> is a value \<open>Inl e\<close> of the result type \<open>error + 'a\<close>; the
    statements after it are not executed, so an \<open>Inl\<close> result carries no output.
  \<^item> Blender's mesh is read-only data: a record of lists, indexed as the source indexes it.
    An index out of range is \<open>Inl IndexError\<close>.
  \<^item> Tangent space (\<^verbatim>\<open>calc_tangents\<close>, \<^verbatim>\<open>add_defined_tangents\<close>), material and
    texture properties, morphs and the skin partition are collaborators outside this file.
\<close>

subsection \<open>Errors\<close>

text \<open>
  One constructor per \<^verbatim>\<open>raise NifError(...)\<close> of the file, carrying what the message
  interpolates, and the Python run-time errors the modelled statements can raise.
\<close>

datatype error =
    TooManyVertices            \<comment> \<open>"Too many vertices. Decimate your mesh and try again."\<close>
  | TooManyPolygons            \<comment> \<open>"Too many polygons. Decimate your mesh and try again."\<close>
  | MultipleUVLayers string    \<comment> \<open>"{game} does not support multiple UV layers."\<close>
  | UnweightedVertices "nat list"  \<comment> \<open>"Cannot export mesh with unweighted vertices. ..."\<close>
  | UnassignedPolygons "nat list"  \<comment> \<open>"Some polygons of {b_obj.name} not assigned to any body part. ..."\<close>
  | SkeletonRootNotFound string    \<comment> \<open>"Skeleton root '{n_root_name}' not found."\<close>
  | BoneNotFound string            \<comment> \<open>"Bone '{b_bone.name}' not found."\<close>
  | AssertionError
  | IndexError
  | KeyError
  | TypeError

definition bind_err :: "error + 'a \<Rightarrow> ('a \<Rightarrow> error + 'b) \<Rightarrow> error + 'b" where
  "bind_err m f = (case m of Inl e \<Rightarrow> Inl e | Inr x \<Rightarrow> f x)"

definition py_nth :: "'a list \<Rightarrow> nat \<Rightarrow> error + 'a" where
  "py_nth xs i = (if i < length xs then Inr (xs ! i) else Inl IndexError)"

fun map_err :: "('a \<Rightarrow> error + 'b) \<Rightarrow> 'a list \<Rightarrow> error + 'b list" where
  "map_err f [] = Inr []"
| "map_err f (x # xs) =
     bind_err (f x) (\<lambda>y. bind_err (map_err f xs) (\<lambda>ys. Inr (y # ys)))"

fun fold_err :: "('a \<Rightarrow> 's \<Rightarrow> error + 's) \<Rightarrow> 'a list \<Rightarrow> 's \<Rightarrow> error + 's" where
  "fold_err f [] s = Inr s"
| "fold_err f (x # xs) s = bind_err (f x s) (fold_err f xs)"

subsection \<open>The evaluated mesh and the export settings\<close>

type_synonym vec3 = "real \<times> real \<times> real"
type_synonym uv = "real \<times> real"
type_synonym rgba = "real \<times> real \<times> real \<times> real"
type_synonym triangle = "nat \<times> nat \<times> nat"

text \<open>\<^verbatim>\<open>vertquad = (fv, fuv, fn, f_col)\<close>: position, one UV per layer, normal or
  \<^verbatim>\<open>None\<close>, colour or \<^verbatim>\<open>None\<close>.\<close>

type_synonym vertquad = "vec3 \<times> uv list \<times> vec3 option \<times> rgba option"

record mesh_vertex =
  co :: vec3
  groups :: "(nat \<times> real) list"   \<comment> \<open>\<^verbatim>\<open>(g.group, g.weight)\<close> for g in \<^verbatim>\<open>b_vert.groups\<close>\<close>

record mesh_loop =
  vertex_index :: nat
  loop_normal :: vec3

text \<open>Blender keeps \<^verbatim>\<open>len(poly.vertices) = len(poly.loop_indices)\<close>; the record has the
  loop indices only and \<^verbatim>\<open>f_numverts\<close> is their number.\<close>

record polygon =
  poly_index :: nat
  material_index :: nat
  use_smooth :: bool
  poly_normal :: vec3
  loop_indices :: "nat list"

record material =
  model_space_normals :: bool   \<comment> \<open>\<^verbatim>\<open>b_mat.niftools_shader.model_space_normals\<close>\<close>

record mesh =
  vertices :: "mesh_vertex list"
  loops :: "mesh_loop list"
  polygons :: "polygon list"
  uv_layers :: "uv list list"             \<comment> \<open>per layer, \<^verbatim>\<open>data[loop_index].uv\<close>\<close>
  mesh_vertex_colors :: "rgba list list"  \<comment> \<open>per layer, \<^verbatim>\<open>data[loop_index].color\<close>\<close>
  materials :: "material option list"     \<comment> \<open>material slots; an empty slot is \<^verbatim>\<open>None\<close>\<close>

text \<open>What the export reads besides the mesh: the game, \<^verbatim>\<open>NifOp.props.epsilon\<close>,
  \<^verbatim>\<open>b_obj.scale\<close>, the list \<^verbatim>\<open>get_polygon_parts\<close> returned (body part per polygon,
  \<open>-1\<close> for none; empty when the object has no valid face map), and the number of UV sets
  the data block allocates (see \<^verbatim>\<open>set_geom_data\<close>).\<close>

record export_settings =
  game :: string
  epsilon :: real
  scale :: vec3
  polygon_parts :: "int list"
  n_uv_sets :: nat

subsection \<open>\<^verbatim>\<open>is_new_face_corner_data\<close> (lines 706-723)\<close>

text \<open>
  \<^verbatim>\<open>max(abs(vertquad[1][uv_index][i] - v_quad_old[1][uv_index][i])
        for uv_index in range(len(v_quad_old[1])))\<close>
  for component \<open>i\<close> of the UVs; \<^verbatim>\<open>vertquad[1][uv_index]\<close> raises IndexError when the new
  corner has fewer UVs than the old one. The function is called on a non-empty old list.
\<close>

fun uv_component :: "nat \<Rightarrow> uv \<Rightarrow> real" where
  "uv_component 0 (u, v) = u"
| "uv_component (Suc i) (u, v) = v"

fun py_max :: "real list \<Rightarrow> real" where
  "py_max [] = 0"
| "py_max (x # xs) = fold max xs x"

definition max_uv_diff :: "nat \<Rightarrow> uv list \<Rightarrow> uv list \<Rightarrow> error + real" where
  "max_uv_diff i new old =
     bind_err
       (map_err (\<lambda>uv_index.
          bind_err (py_nth new uv_index) (\<lambda>n.
            Inr \<bar>uv_component i n - uv_component i (old ! uv_index)\<bar>))
          [0..<length old])
       (\<lambda>ds. Inr (py_max ds))"

definition vec3_differs :: "real \<Rightarrow> vec3 \<Rightarrow> vec3 \<Rightarrow> bool" where
  "vec3_differs eps n old =
     (case (n, old) of ((x, y, z), (x', y', z')) \<Rightarrow>
        \<bar>x - x'\<bar> > eps \<or> \<bar>y - y'\<bar> > eps \<or> \<bar>z - z'\<bar> > eps)"

definition rgba_differs :: "real \<Rightarrow> rgba \<Rightarrow> rgba \<Rightarrow> bool" where
  "rgba_differs eps c old =
     (case (c, old) of ((r, g, b, a), (r', g', b', a')) \<Rightarrow>
        \<bar>r - r'\<bar> > eps \<or> \<bar>g - g'\<bar> > eps \<or> \<bar>b - b'\<bar> > eps \<or> \<bar>a - a'\<bar> > eps)"

text \<open>
  The three blocks of the function, each guarded by the truth value of the old attribute:
  a non-empty UV list, a normal that is not \<^verbatim>\<open>None\<close> (a \<^verbatim>\<open>mathutils.Vector\<close> has
  length 3 and no \<^verbatim>\<open>__bool__\<close>, so it is true), a colour list that is not \<^verbatim>\<open>None\<close>
  (four floats). Subscripting a new attribute that is \<^verbatim>\<open>None\<close> raises TypeError.
  Falling off the end returns \<^verbatim>\<open>None\<close>, which the caller reads as false.
\<close>

definition is_new_face_corner_data :: "real \<Rightarrow> vertquad \<Rightarrow> vertquad \<Rightarrow> error + bool" where
  "is_new_face_corner_data eps vertquad v_quad_old =
     (case (vertquad, v_quad_old) of ((fv, fuv, fn, f_col), (fv', fuv', fn', f_col')) \<Rightarrow>
        bind_err
          (if fuv' \<noteq> [] then
             bind_err (max_uv_diff 0 fuv fuv') (\<lambda>d0.
               if d0 > eps then Inr True
               else bind_err (max_uv_diff 1 fuv fuv') (\<lambda>d1. Inr (d1 > eps)))
           else Inr False)
          (\<lambda>uv_new.
             if uv_new then Inr True
             else
               bind_err
                 (case fn' of
                    None \<Rightarrow> Inr False
                  | Some old_n \<Rightarrow>
                      (case fn of None \<Rightarrow> Inl TypeError | Some n \<Rightarrow> Inr (vec3_differs eps n old_n)))
                 (\<lambda>n_new.
                    if n_new then Inr True
                    else
                      (case f_col' of
                         None \<Rightarrow> Inr False
                       | Some old_c \<Rightarrow>
                           (case f_col of
                              None \<Rightarrow> Inl TypeError
                            | Some c \<Rightarrow> Inr (rgba_differs eps c old_c))))))"

subsection \<open>The polygon loop of \<^verbatim>\<open>export_tri_shapes\<close> (lines 194-318)\<close>

text \<open>The lists the loop fills (lines 195-204); \<^verbatim>\<open>vertex_map\<close> starts as one
  \<^verbatim>\<open>None\<close> per mesh vertex.\<close>

record export_state =
  vertquad_list :: "vertquad list"
  vertex_map :: "nat list option list"
  vertex_positions :: "vec3 list"
  normals :: "vec3 list"
  vertex_colors :: "rgba list"
  uv_coords :: "uv list list"
  triangles :: "triangle list"
  bodypartfacemap :: "int list"
  polygons_without_bodypart :: "polygon list"

definition init_state :: "mesh \<Rightarrow> export_state" where
  "init_state eval_mesh =
     \<lparr>vertquad_list = [],
      vertex_map = replicate (length (vertices eval_mesh)) None,
      vertex_positions = [], normals = [], vertex_colors = [], uv_coords = [],
      triangles = [], bodypartfacemap = [], polygons_without_bodypart = []\<rparr>"

text \<open>
  Lines 240-262: the data of one face corner. \<^verbatim>\<open>vertex.index\<close> is the position of the
  vertex in \<^verbatim>\<open>eval_mesh.vertices\<close>, so \<^verbatim>\<open>vertex_index = fv_index\<close>. The result is the
  source vertex index and the vertquad.
\<close>

definition face_corner_data ::
  "mesh \<Rightarrow> bool \<Rightarrow> polygon \<Rightarrow> nat \<Rightarrow> error + (nat \<times> vertquad)" where
  "face_corner_data eval_mesh mesh_hasnormals poly loop_index =
     bind_err (py_nth (loops eval_mesh) loop_index) (\<lambda>lp.
       let fv_index = vertex_index lp in
       bind_err (py_nth (vertices eval_mesh) fv_index) (\<lambda>vertex.
         let fn = (if mesh_hasnormals
                   then Some (if use_smooth poly then loop_normal lp else poly_normal poly)
                   else None) in
         bind_err (map_err (\<lambda>uv_layer. py_nth uv_layer loop_index) (uv_layers eval_mesh)) (\<lambda>fuv.
           bind_err
             (case mesh_vertex_colors eval_mesh of
                [] \<Rightarrow> Inr None
              | layer0 # _ \<Rightarrow> bind_err (py_nth layer0 loop_index) (\<lambda>c. Inr (Some c)))
             (\<lambda>f_col. Inr (fv_index, (co vertex, fuv, fn, f_col))))))"

text \<open>
  Lines 268-274: \<^verbatim>\<open>for j in vertex_map[vertex_index]\<close>, skipping a candidate whose data
  is new and stopping at the first one that is not.
\<close>

fun find_vertquad :: "real \<Rightarrow> vertquad \<Rightarrow> vertquad list \<Rightarrow> nat list \<Rightarrow> error + nat option" where
  "find_vertquad eps vertquad vql [] = Inr None"
| "find_vertquad eps vertquad vql (j # js) =
     bind_err (py_nth vql j) (\<lambda>old.
       bind_err (is_new_face_corner_data eps vertquad old) (\<lambda>is_new.
         if is_new then find_vertquad eps vertquad vql js else Inr (Some j)))"

text \<open>
  Lines 264-297 for one corner: \<^verbatim>\<open>f_index[i]\<close> starts as \<^verbatim>\<open>len(vertquad_list)\<close>, is
  replaced by the first candidate found, is checked against 65535, and when it still is
  \<^verbatim>\<open>len(vertquad_list)\<close> the corner is appended to every list. The result is
  \<^verbatim>\<open>f_index[i]\<close> and the new state.
\<close>

definition weld_corner ::
  "real \<Rightarrow> bool \<Rightarrow> bool \<Rightarrow> bool \<Rightarrow> nat \<Rightarrow> vertquad \<Rightarrow> export_state \<Rightarrow> error + (nat \<times> export_state)" where
  "weld_corner eps mesh_hasnormals mesh_hasvcol b_uv_layers v_index vertquad st =
     bind_err (py_nth (vertex_map st) v_index) (\<lambda>entry.
       bind_err
         (case entry of
            None \<Rightarrow> Inr None
          | Some js \<Rightarrow> find_vertquad eps vertquad (vertquad_list st) js)
         (\<lambda>found.
            let n = length (vertquad_list st);
                f_index_i = (case found of None \<Rightarrow> n | Some j \<Rightarrow> j) in
            if f_index_i > 65535 then Inl TooManyVertices
            else if f_index_i = n then
              Inr (f_index_i,
                st\<lparr>vertex_map := (vertex_map st)
                      [v_index := Some ((case entry of None \<Rightarrow> [] | Some js \<Rightarrow> js) @ [n])],
                   vertquad_list := vertquad_list st @ [vertquad],
                   vertex_positions := vertex_positions st @ [fst vertquad],
                   normals := (if mesh_hasnormals
                               then normals st @ (case fst (snd (snd vertquad)) of
                                                     None \<Rightarrow> [] | Some n' \<Rightarrow> [n'])
                               else normals st),
                   vertex_colors := (if mesh_hasvcol
                                     then vertex_colors st @ (case snd (snd (snd vertquad)) of
                                                                None \<Rightarrow> [] | Some c \<Rightarrow> [c])
                                     else vertex_colors st),
                   uv_coords := (if b_uv_layers then uv_coords st @ [fst (snd vertquad)]
                                 else uv_coords st)\<rparr>)
            else Inr (f_index_i, st)))"

definition export_corner ::
  "export_settings \<Rightarrow> mesh \<Rightarrow> bool \<Rightarrow> polygon \<Rightarrow> nat \<Rightarrow> export_state
     \<Rightarrow> error + (nat \<times> export_state)" where
  "export_corner cfg eval_mesh mesh_hasnormals poly loop_index st =
     bind_err (face_corner_data eval_mesh mesh_hasnormals poly loop_index) (\<lambda>(v_index, vertquad).
       weld_corner (epsilon cfg) mesh_hasnormals (mesh_vertex_colors eval_mesh \<noteq> [])
         (uv_layers eval_mesh \<noteq> []) v_index vertquad st)"

text \<open>Line 238: \<^verbatim>\<open>for i, loop_index in enumerate(poly.loop_indices)\<close>, returning
  \<^verbatim>\<open>f_index\<close>.\<close>

fun export_corners ::
  "export_settings \<Rightarrow> mesh \<Rightarrow> bool \<Rightarrow> polygon \<Rightarrow> nat list \<Rightarrow> export_state
     \<Rightarrow> error + (nat list \<times> export_state)" where
  "export_corners cfg eval_mesh mesh_hasnormals poly [] st = Inr ([], st)"
| "export_corners cfg eval_mesh mesh_hasnormals poly (loop_index # rest) st =
     bind_err (export_corner cfg eval_mesh mesh_hasnormals poly loop_index st) (\<lambda>(k, st').
       bind_err (export_corners cfg eval_mesh mesh_hasnormals poly rest st') (\<lambda>(ks, st'').
         Inr (k # ks, st'')))"

text \<open>
  Lines 300-318, one iteration \<open>i\<close> of \<^verbatim>\<open>for i in range(f_numverts - 2)\<close>: the triangle
  and its body part. \<open>f_index\<close> has \<^verbatim>\<open>f_numverts\<close> entries and \<open>i + 2 < f_numverts\<close>, so
  the three reads are in range.
\<close>

definition face_triangle :: "vec3 \<Rightarrow> nat list \<Rightarrow> nat \<Rightarrow> triangle" where
  "face_triangle b_scale f_index i =
     (case b_scale of (sx, sy, sz) \<Rightarrow>
        if sx + sy + sz > 0 then (f_index ! 0, f_index ! (1 + i), f_index ! (2 + i))
        else (f_index ! 0, f_index ! (2 + i), f_index ! (1 + i)))"

definition add_triangle :: "export_settings \<Rightarrow> polygon \<Rightarrow> nat list \<Rightarrow> nat \<Rightarrow> export_state
     \<Rightarrow> error + export_state" where
  "add_triangle cfg poly f_index i st =
     (let st1 = st\<lparr>triangles := triangles st @ [face_triangle (scale cfg) f_index i]\<rparr> in
      if game cfg \<notin> {''FALLOUT_3'', ''SKYRIM''} \<or> polygon_parts cfg = [] then
        Inr (st1\<lparr>bodypartfacemap := bodypartfacemap st1 @ [0]\<rparr>)
      else
        bind_err (py_nth (polygon_parts cfg) (poly_index poly)) (\<lambda>part_index.
          if part_index \<ge> 0 then
            Inr (st1\<lparr>bodypartfacemap := bodypartfacemap st1 @ [part_index]\<rparr>)
          else
            Inr (st1\<lparr>polygons_without_bodypart := polygons_without_bodypart st1 @ [poly]\<rparr>)))"

text \<open>Lines 226-318: one polygon. A polygon of another material or with fewer than three
  corners is skipped; more than four corners fail the assertion.\<close>

definition export_polygon ::
  "export_settings \<Rightarrow> mesh \<Rightarrow> bool \<Rightarrow> bool \<Rightarrow> nat \<Rightarrow> polygon \<Rightarrow> export_state
     \<Rightarrow> error + export_state" where
  "export_polygon cfg eval_mesh mesh_hasnormals has_mat b_mat_index poly st =
     (if has_mat \<and> material_index poly \<noteq> b_mat_index then Inr st
      else
        let f_numverts = length (loop_indices poly) in
        if f_numverts < 3 then Inr st
        else if \<not> (f_numverts = 3 \<or> f_numverts = 4) then Inl AssertionError
        else
          bind_err (export_corners cfg eval_mesh mesh_hasnormals poly (loop_indices poly) st)
            (\<lambda>(f_index, st').
               fold_err (add_triangle cfg poly f_index) [0..<f_numverts - 2] st'))"

text \<open>Line 224: \<^verbatim>\<open>for poly in eval_mesh.polygons\<close>.\<close>

definition export_polygons ::
  "export_settings \<Rightarrow> mesh \<Rightarrow> bool \<Rightarrow> bool \<Rightarrow> nat \<Rightarrow> polygon list \<Rightarrow> export_state
     \<Rightarrow> error + export_state" where
  "export_polygons cfg eval_mesh mesh_hasnormals has_mat b_mat_index polys st =
     fold_err (export_polygon cfg eval_mesh mesh_hasnormals has_mat b_mat_index) polys st"

subsection \<open>\<^verbatim>\<open>set_geom_data\<close> (lines 434-471)\<close>

text \<open>
  The fields of \<^verbatim>\<open>n_geom.data\<close> the function writes, and the triangles
  \<^verbatim>\<open>set_triangles\<close> stores (line 332). \<^verbatim>\<open>reset_field\<close> belongs to the generated
  block classes, which are not in this file: the number of UV sets the block allocates is
  the parameter \<open>n_sets\<close>, every set holding \<^verbatim>\<open>num_vertices\<close> entries \<open>(0, 0)\<close>.
\<close>

record tri_shape_data =
  num_vertices :: nat
  data_vertices :: "vec3 list"
  has_normals :: bool
  data_normals :: "vec3 list"
  has_vertex_colors :: bool
  data_vertex_colors :: "rgba list"
  has_uv :: bool
  uv_sets :: "uv list list"
  data_triangles :: "triangle list"

text \<open>Lines 467-471, the body of the two loops for set \<open>j\<close> and vertex \<open>i\<close>.\<close>

definition write_uv :: "uv list list \<Rightarrow> nat \<Rightarrow> nat \<Rightarrow> uv \<Rightarrow> error + uv" where
  "write_uv uv_coords' j i n_uv =
     bind_err (py_nth uv_coords' i) (\<lambda>c.
       if length c = 0 then Inr n_uv
       else bind_err (py_nth c j) (\<lambda>(u, v). Inr (u, 1.0 - v)))"

definition set_geom_data ::
  "nat \<Rightarrow> vec3 list \<Rightarrow> vec3 list \<Rightarrow> rgba list \<Rightarrow> uv list list \<Rightarrow> uv list list
     \<Rightarrow> error + tri_shape_data" where
  "set_geom_data n_sets vertex_positions' normals' vertex_colors' uv_coords' b_uv_layers =
     bind_err
       (map_err (\<lambda>j. map_err (\<lambda>i. write_uv uv_coords' j i (0, 0))
                   [0..<length vertex_positions'])
          [0..<n_sets])
       (\<lambda>sets.
          Inr \<lparr>num_vertices = length vertex_positions',
               data_vertices = vertex_positions',
               has_normals = (normals' \<noteq> []),
               data_normals = normals',
               has_vertex_colors = (vertex_colors' \<noteq> []),
               data_vertex_colors = vertex_colors',
               has_uv = (b_uv_layers \<noteq> []),
               uv_sets = sets,
               data_triangles = []\<rparr>)"

subsection \<open>Skinning: \<^verbatim>\<open>create_skin_inst_data\<close>, \<^verbatim>\<open>get_bone_block\<close> and the weights\<close>

text \<open>
  \<^verbatim>\<open>block_store.block_to_obj\<close> maps exported blocks to the Blender objects and bones they
  came from; iteration follows insertion order, so it is a list of pairs.
\<close>

record n_block =
  is_NiNode :: bool      \<comment> \<open>\<^verbatim>\<open>isinstance(block, NifClasses.NiNode)\<close>\<close>
  block_name :: string

datatype b_ref = Bone string | Object string

text \<open>
  The object and its armature: whether the parent is an armature (line 351), the names of
  \<^verbatim>\<open>b_obj.vertex_groups\<close> in index order, the keys of \<^verbatim>\<open>b_obj_armature.data.bones\<close>,
  \<^verbatim>\<open>b_obj.niftools.skeleton_root\<close> (empty when unset), the name
  \<^verbatim>\<open>block_store.get_full_name(b_obj_armature)\<close> returns, and the block store.
\<close>

record skin_settings =
  parent_is_armature :: bool
  vertex_groups :: "string list"
  bones :: "string list"
  skeleton_root :: string
  armature_full_name :: string
  block_to_obj :: "(n_block \<times> b_ref) list"

record skin_instance =
  inst_type :: string
  inst_skeleton_root :: n_block

text \<open>Lines 594-600: the \<^verbatim>\<open>for ... else\<close> over the keys of the block store.\<close>

fun find_skeleton_root :: "string \<Rightarrow> (n_block \<times> b_ref) list \<Rightarrow> error + n_block" where
  "find_skeleton_root n_root_name [] = Inl (SkeletonRootNotFound n_root_name)"
| "find_skeleton_root n_root_name ((block, obj) # rest) =
     (if is_NiNode block \<and> block_name block = n_root_name then Inr block
      else find_skeleton_root n_root_name rest)"

text \<open>Lines 588-592: the custom property when it is set, the armature's name otherwise.\<close>

definition n_root_name :: "skin_settings \<Rightarrow> string" where
  "n_root_name b_obj =
     (if skeleton_root b_obj \<noteq> [] then skeleton_root b_obj else armature_full_name b_obj)"

definition create_skin_inst_data :: "export_settings \<Rightarrow> skin_settings \<Rightarrow> error + skin_instance" where
  "create_skin_inst_data cfg b_obj =
     (let skininst_type =
            (if game cfg \<in> {''FALLOUT_3'', ''SKYRIM''} \<and> polygon_parts cfg \<noteq> []
             then ''BSDismemberSkinInstance'' else ''NiSkinInstance'') in
      bind_err (find_skeleton_root (n_root_name b_obj) (block_to_obj b_obj)) (\<lambda>block.
        Inr \<lparr>inst_type = skininst_type, inst_skeleton_root = block\<rparr>))"

text \<open>Lines 555-560.\<close>

fun get_bone_block :: "(n_block \<times> b_ref) list \<Rightarrow> string \<Rightarrow> error + n_block" where
  "get_bone_block [] b_bone = Inl (BoneNotFound b_bone)"
| "get_bone_block ((n_blk, b_obj) # rest) b_bone =
     (if is_NiNode n_blk \<and> b_obj = Bone b_bone then Inr n_blk
      else get_bone_block rest b_bone)"

text \<open>
  Line 356: \<^verbatim>\<open>boneinfluences = vertgroups & bone_names\<close>, a Python set. The model iterates
  it in a fixed order without repetition; Python's order is unspecified, and nothing proved
  below depends on it.
\<close>

definition boneinfluences :: "skin_settings \<Rightarrow> string list" where
  "boneinfluences b_obj = filter (\<lambda>n. n \<in> set (bones b_obj)) (remdups (vertex_groups b_obj))"

text \<open>Line 369: \<^verbatim>\<open>b_obj.vertex_groups[bone_group].index\<close>, the position of the first
  group of that name.\<close>

fun group_index :: "string list \<Rightarrow> string \<Rightarrow> error + nat" where
  "group_index [] name = Inl KeyError"
| "group_index (g # gs) name =
     (if g = name then Inr 0 else bind_err (group_index gs name) (\<lambda>i. Inr (Suc i)))"

text \<open>Lines 376-380: the first \<^verbatim>\<open>g\<close> of \<^verbatim>\<open>b_vert.groups\<close> with
  \<^verbatim>\<open>g.group == b_vert_group.index\<close> (the test of line 377 is always true).\<close>

fun group_weight :: "nat \<Rightarrow> (nat \<times> real) list \<Rightarrow> real option" where
  "group_weight gi [] = None"
| "group_weight gi ((g, w) # gs) = (if g = gi then Some w else group_weight gi gs)"

text \<open>Lines 371-380: \<^verbatim>\<open>for b_vert in eval_mesh.vertices\<close>, from vertex \<open>i\<close> on, filling
  \<^verbatim>\<open>b_list_weight\<close> and \<^verbatim>\<open>unweighted_vertices\<close>.\<close>

fun bone_weights ::
  "nat \<Rightarrow> nat \<Rightarrow> mesh_vertex list \<Rightarrow> (nat \<times> real) list \<times> nat list \<Rightarrow> (nat \<times> real) list \<times> nat list" where
  "bone_weights gi i [] acc = acc"
| "bone_weights gi i (b_vert # vs) (b_list_weight, unweighted) =
     (if length (groups b_vert) = 0 then
        bone_weights gi (Suc i) vs (b_list_weight, unweighted @ [i])
      else
        (case group_weight gi (groups b_vert) of
           None \<Rightarrow> bone_weights gi (Suc i) vs (b_list_weight, unweighted)
         | Some w \<Rightarrow> bone_weights gi (Suc i) vs (b_list_weight @ [(i, w)], unweighted)))"

text \<open>Lines 385-389: the normalisation sums.\<close>

fun add_norms :: "(nat \<times> real) list \<Rightarrow> (nat \<rightharpoonup> real) \<Rightarrow> (nat \<rightharpoonup> real)" where
  "add_norms [] vn = vn"
| "add_norms ((v, w) # rest) vn =
     add_norms rest (vn(v \<mapsto> (case vn v of Some s \<Rightarrow> s + w | None \<Rightarrow> w)))"

record weight_state =
  vert_list :: "(string \<times> (nat \<times> real) list) list"
  vert_norm :: "nat \<rightharpoonup> real"
  unweighted_vertices :: "nat list"

text \<open>Lines 367-389: \<^verbatim>\<open>for bone_group in boneinfluences\<close>.\<close>

fun collect_weights ::
  "string list \<Rightarrow> mesh_vertex list \<Rightarrow> string list \<Rightarrow> weight_state \<Rightarrow> error + weight_state" where
  "collect_weights vgroups verts [] ws = Inr ws"
| "collect_weights vgroups verts (bone_group # rest) ws =
     bind_err (group_index vgroups bone_group) (\<lambda>gi.
       case bone_weights gi 0 verts ([], unweighted_vertices ws) of
         (b_list_weight, unweighted) \<Rightarrow>
           collect_weights vgroups verts rest
             \<lparr>vert_list = AList.update bone_group b_list_weight (vert_list ws),
              vert_norm = add_norms b_list_weight (vert_norm ws),
              unweighted_vertices = unweighted\<rparr>)"

text \<open>Lines 638-660. Selecting the vertices in the user interface is not modelled; the
  raise is.\<close>

definition select_unweighted_vertices :: "nat list \<Rightarrow> error + unit" where
  "select_unweighted_vertices unweighted =
     (if length unweighted > 0 then Inl (UnweightedVertices unweighted) else Inr ())"

text \<open>
  Lines 397-408: the weights of one bone, remapped to the welded vertices. The dict
  \<^verbatim>\<open>vert_weights\<close> is an association list updated in place. \<^verbatim>\<open>vertex_map[v[0]]\<close> is
  false when it is \<^verbatim>\<open>None\<close> or empty, and then \<^verbatim>\<open>vert_norm[v[0]]\<close> is not read; a
  norm of \<open>0.0\<close> is false.
\<close>

fun remap_weights ::
  "nat list option list \<Rightarrow> (nat \<rightharpoonup> real) \<Rightarrow> (nat \<times> real) list \<Rightarrow> (nat \<times> real) list
     \<Rightarrow> error + (nat \<times> real) list" where
  "remap_weights vmap vn [] vert_weights = Inr vert_weights"
| "remap_weights vmap vn ((v, w) # rest) vert_weights =
     bind_err (py_nth vmap v) (\<lambda>entry.
       case entry of
         None \<Rightarrow> remap_weights vmap vn rest vert_weights
       | Some [] \<Rightarrow> remap_weights vmap vn rest vert_weights
       | Some (k # ks) \<Rightarrow>
           (case vn v of
              None \<Rightarrow> Inl KeyError
            | Some norm_v \<Rightarrow>
                if norm_v \<noteq> 0 then
                  remap_weights vmap vn rest
                    (fold (\<lambda>vert_index vw. AList.update vert_index (w / norm_v) vw) (k # ks)
                       vert_weights)
                else remap_weights vmap vn rest vert_weights))"

text \<open>Lines 394-413: \<^verbatim>\<open>for b_bone_name in boneinfluences\<close>; the result lists the calls
  \<^verbatim>\<open>n_geom.add_bone(n_node, vert_weights)\<close> in order.\<close>

fun add_bones ::
  "skin_settings \<Rightarrow> nat list option list \<Rightarrow> weight_state \<Rightarrow> string list
     \<Rightarrow> error + (n_block \<times> (nat \<times> real) list) list" where
  "add_bones b_obj vmap ws [] = Inr []"
| "add_bones b_obj vmap ws (b_bone_name # rest) =
     (case map_of (vert_list ws) b_bone_name of
        None \<Rightarrow> Inl KeyError
      | Some b_list_weight \<Rightarrow>
          bind_err (remap_weights vmap (vert_norm ws) b_list_weight []) (\<lambda>vert_weights.
            if vert_weights \<noteq> [] then
              bind_err (get_bone_block (block_to_obj b_obj) b_bone_name) (\<lambda>n_node.
                bind_err (add_bones b_obj vmap ws rest) (\<lambda>more.
                  Inr ((n_node, vert_weights) # more)))
            else add_bones b_obj vmap ws rest))"

record skin_data =
  skin_inst :: skin_instance
  skin_bones :: "(n_block \<times> (nat \<times> real) list) list"

text \<open>Lines 351-413. \<^verbatim>\<open>update_bind_position\<close>, \<^verbatim>\<open>update_skin_center_radius\<close> and
  \<^verbatim>\<open>export_skin_partition\<close> follow in the source and work on matrices and partitions
  that are not part of this record.\<close>

definition export_vertex_weights ::
  "export_settings \<Rightarrow> skin_settings \<Rightarrow> mesh \<Rightarrow> nat list option list \<Rightarrow> error + skin_data option" where
  "export_vertex_weights cfg b_obj eval_mesh vmap =
     (if parent_is_armature b_obj then
        (if boneinfluences b_obj \<noteq> [] then
           bind_err (create_skin_inst_data cfg b_obj) (\<lambda>skininst.
             bind_err (collect_weights (vertex_groups b_obj) (vertices eval_mesh)
                         (boneinfluences b_obj)
                         \<lparr>vert_list = [], vert_norm = Map.empty, unweighted_vertices = []\<rparr>)
               (\<lambda>ws.
                  bind_err (select_unweighted_vertices (unweighted_vertices ws)) (\<lambda>_.
                    bind_err (add_bones b_obj vmap ws (boneinfluences b_obj)) (\<lambda>bs.
                      Inr (Some \<lparr>skin_inst = skininst, skin_bones = bs\<rparr>)))))
         else Inr None)
      else Inr None)"

subsection \<open>One material of \<^verbatim>\<open>export_tri_shapes\<close> (the body of the loop of line 116)\<close>

record tri_shape =
  shape_data :: tri_shape_data
  shape_skin :: "skin_data option"

text \<open>Lines 662-704 always end in the raise of line 703.\<close>

definition select_unassigned_polygons :: "polygon list \<Rightarrow> error + unit" where
  "select_unassigned_polygons polys = Inl (UnassignedPolygons (map poly_index polys))"

text \<open>Lines 118-122: normals are exported for a material, except for a Skyrim material
  with model space normals.\<close>

definition material_hasnormals :: "export_settings \<Rightarrow> material option \<Rightarrow> bool" where
  "material_hasnormals cfg b_mat =
     (case b_mat of
        None \<Rightarrow> False
      | Some mat \<Rightarrow> \<not> (game cfg = ''SKYRIM'' \<and> model_space_normals mat))"

text \<open>
  Lines 320-413, what follows the polygon loop: the two checks, the \<^verbatim>\<open>continue\<close> of line
  327 for a material that no vertex uses (the result \<open>None\<close>), then the geometry, the
  triangles and the skin.
\<close>

definition finish_material ::
  "export_settings \<Rightarrow> skin_settings \<Rightarrow> mesh \<Rightarrow> export_state \<Rightarrow> error + tri_shape option" where
  "finish_material cfg b_obj eval_mesh st =
     bind_err
       (if polygons_without_bodypart st \<noteq> []
        then select_unassigned_polygons (polygons_without_bodypart st) else Inr ())
       (\<lambda>_.
          if length (triangles st) > 65535 then Inl TooManyPolygons
          else if length (vertex_positions st) = 0 then Inr None
          else
            bind_err
              (set_geom_data (n_uv_sets cfg) (vertex_positions st) (normals st)
                 (vertex_colors st) (uv_coords st) (uv_layers eval_mesh))
              (\<lambda>data.
                 bind_err (export_vertex_weights cfg b_obj eval_mesh (vertex_map st))
                   (\<lambda>skin.
                      Inr (Some \<lparr>shape_data = data\<lparr>data_triangles := triangles st\<rparr>,
                                 shape_skin = skin\<rparr>))))"

text \<open>
  The body of the loop of line 116 for material \<open>b_mat\<close> with index \<open>b_mat_index\<close>: the UV
  layer check of lines 220-222, the polygon loop of lines 224-318 on fresh lists, and the
  rest. Creating, naming and linking the blocks (lines 124-172) does not raise and writes
  no geometry.
\<close>

definition export_material ::
  "export_settings \<Rightarrow> skin_settings \<Rightarrow> mesh \<Rightarrow> nat \<Rightarrow> material option \<Rightarrow> error + tri_shape option" where
  "export_material cfg b_obj eval_mesh b_mat_index b_mat =
     (if game cfg \<in> {''FALLOUT_3'', ''SKYRIM''} \<and> length (uv_layers eval_mesh) > 1 then
        Inl (MultipleUVLayers (game cfg))
      else
        bind_err
          (export_polygons cfg eval_mesh (material_hasnormals cfg b_mat) (b_mat \<noteq> None)
             b_mat_index (polygons eval_mesh) (init_state eval_mesh))
          (finish_material cfg b_obj eval_mesh))"

text \<open>
  Lines 89-116: a mesh without vertices is skipped, a collision shape ignores the materials,
  a mesh without materials gets the single material \<^verbatim>\<open>None\<close>, and the materials are
  exported in order.
\<close>

definition export_tri_shapes ::
  "export_settings \<Rightarrow> skin_settings \<Rightarrow> bool \<Rightarrow> mesh \<Rightarrow> error + tri_shape option list" where
  "export_tri_shapes cfg b_obj parent_is_collision eval_mesh =
     (if vertices eval_mesh = [] then Inr []
      else
        let mesh_materials = (if \<not> parent_is_collision then materials eval_mesh else []);
            mesh_materials' = (if mesh_materials = [] then [None] else mesh_materials) in
        map_err (\<lambda>(b_mat_index, b_mat). export_material cfg b_obj eval_mesh b_mat_index b_mat)
          (enumerate 0 mesh_materials'))"

subsection \<open>\<^verbatim>\<open>update_bind_position\<close> (lines 515-553)\<close>

text \<open>
  The armature's \<^verbatim>\<open>data.pose_position\<close> is the one piece of state the function changes,
  so the function takes the armature and returns it with its result. Matrices are abstract:
  \<open>pose_matrix position name\<close> is \<^verbatim>\<open>b_obj_armature.pose.bones[name].matrix\<close> while the
  armature's pose position is \<open>position\<close> (\<open>None\<close> when the armature has no such bone),
  \<open>geom\<close> is the outcome of lines 525-532 (validation and the overall transform), and
  \<open>offset g m\<close> is the transform of lines 546-549 from the overall transform and the bone
  matrix, with the error an inverse can raise.
\<close>

record armature =
  pose_position :: string

fun b_ref_name :: "b_ref \<Rightarrow> string" where
  "b_ref_name (Bone n) = n"
| "b_ref_name (Object n) = n"

text \<open>Lines 543-549: \<^verbatim>\<open>for i, bone in enumerate(skininst.bones)\<close>, reading the armature
  as it is during the loop.\<close>

fun bone_offsets ::
  "(string \<Rightarrow> string \<Rightarrow> 'm option) \<Rightarrow> ('m \<Rightarrow> error + 't) \<Rightarrow> (n_block \<times> b_ref) list
     \<Rightarrow> armature \<Rightarrow> n_block list \<Rightarrow> error + 't list" where
  "bone_offsets pose_matrix offs store arm [] = Inr []"
| "bone_offsets pose_matrix offs store arm (bone # rest) =
     (case map_of store bone of
        None \<Rightarrow> Inl KeyError
      | Some obj \<Rightarrow>
          (case pose_matrix (pose_position arm) (b_ref_name obj) of
             None \<Rightarrow> Inl KeyError
           | Some m \<Rightarrow>
               bind_err (offs m) (\<lambda>t.
                 bind_err (bone_offsets pose_matrix offs store arm rest) (\<lambda>ts. Inr (t # ts)))))"

definition update_bind_position ::
  "bool \<Rightarrow> error + 'g \<Rightarrow> (string \<Rightarrow> string \<Rightarrow> 'm option) \<Rightarrow> ('g \<Rightarrow> 'm \<Rightarrow> error + 't)
     \<Rightarrow> (n_block \<times> b_ref) list \<Rightarrow> n_block list \<Rightarrow> armature
     \<Rightarrow> armature \<times> (error + 't list option)" where
  "update_bind_position is_skin geom pose_matrix offset store skin_bones' b_obj_armature =
     (if \<not> is_skin then (b_obj_armature, Inr None)
      else
        (case geom of
           Inl e \<Rightarrow> (b_obj_armature, Inl e)
         | Inr geomtransform \<Rightarrow>
             let old_position = pose_position b_obj_armature;
                 posed = b_obj_armature\<lparr>pose_position := ''POSE''\<rparr> in
             (case bone_offsets pose_matrix (offset geomtransform) store posed skin_bones' of
                Inl e \<Rightarrow> (posed, Inl e)
              | Inr ts \<Rightarrow> (posed\<lparr>pose_position := old_position\<rparr>, Inr (Some ts)))))"

subsection \<open>Notions used in the statements\<close>

text \<open>
  Two face corners agree within the tolerance when every attribute present in both does:
  each component of each UV pair, of the normal and of the colour differs by at most
  \<open>\<epsilon>\<close>. This follows the words of the specification, not the code.
\<close>

definition uv_within :: "real \<Rightarrow> uv \<Rightarrow> uv \<Rightarrow> bool" where
  "uv_within eps a b = (\<bar>fst a - fst b\<bar> \<le> eps \<and> \<bar>snd a - snd b\<bar> \<le> eps)"

definition vec3_within :: "real \<Rightarrow> vec3 \<Rightarrow> vec3 \<Rightarrow> bool" where
  "vec3_within eps a b =
     (case (a, b) of ((x, y, z), (x', y', z')) \<Rightarrow>
        \<bar>x - x'\<bar> \<le> eps \<and> \<bar>y - y'\<bar> \<le> eps \<and> \<bar>z - z'\<bar> \<le> eps)"

definition rgba_within :: "real \<Rightarrow> rgba \<Rightarrow> rgba \<Rightarrow> bool" where
  "rgba_within eps c d =
     (case (c, d) of ((r, g, b, a), (r', g', b', a')) \<Rightarrow>
        \<bar>r - r'\<bar> \<le> eps \<and> \<bar>g - g'\<bar> \<le> eps \<and> \<bar>b - b'\<bar> \<le> eps \<and> \<bar>a - a'\<bar> \<le> eps)"

definition agree_within :: "real \<Rightarrow> vertquad \<Rightarrow> vertquad \<Rightarrow> bool" where
  "agree_within eps new old =
     (case (new, old) of ((fv, fuv, fn, f_col), (fv', fuv', fn', f_col')) \<Rightarrow>
        list_all2 (uv_within eps) fuv fuv' \<and>
        (case (fn, fn') of (Some n, Some n') \<Rightarrow> vec3_within eps n n' | _ \<Rightarrow> True) \<and>
        (case (f_col, f_col') of (Some c, Some c') \<Rightarrow> rgba_within eps c c' | _ \<Rightarrow> True))"

text \<open>The welded vertices that came from source vertex \<open>v\<close>, in insertion order.\<close>

definition candidates :: "export_state \<Rightarrow> nat \<Rightarrow> nat list" where
  "candidates st v = (case vertex_map st ! v of None \<Rightarrow> [] | Some js \<Rightarrow> js)"

text \<open>
  The state after lines 279-297 appended the corner \<open>q\<close> of source vertex \<open>v\<close>: the new
  index is registered as the last candidate of \<open>v\<close> and the corner's data go to the end of
  every list that is exported (\<open>hn\<close>, \<open>hc\<close>, \<open>hu\<close>: normals, colours, UVs).
\<close>

definition append_corner ::
  "bool \<Rightarrow> bool \<Rightarrow> bool \<Rightarrow> nat \<Rightarrow> vertquad \<Rightarrow> export_state \<Rightarrow> export_state" where
  "append_corner hn hc hu v q st =
     st\<lparr>vertex_map := (vertex_map st)[v := Some (candidates st v @ [length (vertquad_list st)])],
        vertquad_list := vertquad_list st @ [q],
        vertex_positions := vertex_positions st @ [fst q],
        normals := (if hn then normals st @ (case fst (snd (snd q)) of None \<Rightarrow> [] | Some n' \<Rightarrow> [n'])
                    else normals st),
        vertex_colors := (if hc then vertex_colors st @ (case snd (snd (snd q)) of None \<Rightarrow> [] | Some c \<Rightarrow> [c])
                          else vertex_colors st),
        uv_coords := (if hu then uv_coords st @ [fst (snd q)] else uv_coords st)\<rparr>"

text \<open>
  The attributes a face corner of this export carries: one UV per layer of the mesh, a
  normal exactly when normals are exported, a colour exactly when the mesh has a vertex
  colour layer.
\<close>

definition corner_shape :: "mesh \<Rightarrow> bool \<Rightarrow> vertquad \<Rightarrow> bool" where
  "corner_shape eval_mesh mesh_hasnormals q =
     (case q of (fv, fuv, fn, f_col) \<Rightarrow>
        length fuv = length (uv_layers eval_mesh) \<and>
        (fn \<noteq> None) = mesh_hasnormals \<and>
        (f_col \<noteq> None) = (mesh_vertex_colors eval_mesh \<noteq> []))"

text \<open>
  What holds of the lists of the polygon loop between any two corners: the vertex map has
  one entry per mesh vertex; its lists are non-empty, hold valid indices in increasing
  order, and every welded vertex is in the list of exactly one source vertex; every welded
  vertex has the attributes of this export; and the four output lists are the columns of
  \<^verbatim>\<open>vertquad_list\<close>.
\<close>

definition dedup_inv :: "mesh \<Rightarrow> bool \<Rightarrow> export_state \<Rightarrow> bool" where
  "dedup_inv eval_mesh mesh_hasnormals st =
     (length (vertex_map st) = length (vertices eval_mesh) \<and>
      (\<forall>v < length (vertex_map st).
         vertex_map st ! v \<noteq> Some [] \<and> sorted_wrt (<) (candidates st v) \<and>
         (\<forall>j \<in> set (candidates st v). j < length (vertquad_list st))) \<and>
      (\<forall>j < length (vertquad_list st).
         \<exists>v < length (vertex_map st). j \<in> set (candidates st v)) \<and>
      (\<forall>v < length (vertex_map st). \<forall>v' < length (vertex_map st).
         v \<noteq> v' \<longrightarrow> set (candidates st v) \<inter> set (candidates st v') = {}) \<and>
      (\<forall>q \<in> set (vertquad_list st). corner_shape eval_mesh mesh_hasnormals q) \<and>
      length (vertquad_list st) \<le> 65536 \<and>
      vertex_positions st = map fst (vertquad_list st) \<and>
      normals st = (if mesh_hasnormals
                    then map (\<lambda>q. the (fst (snd (snd q)))) (vertquad_list st) else []) \<and>
      vertex_colors st = (if mesh_vertex_colors eval_mesh \<noteq> []
                          then map (\<lambda>q. the (snd (snd (snd q)))) (vertquad_list st) else []) \<and>
      uv_coords st = (if uv_layers eval_mesh \<noteq> []
                      then map (\<lambda>q. fst (snd q)) (vertquad_list st) else []))"





text \<open>
  Auxiliary notions of the proofs about the weights: the entry a vertex contributes to
  \<^verbatim>\<open>b_list_weight\<close> for group \<open>gi\<close>, all entries of a group and of a bone, the sum in
  \<^verbatim>\<open>vert_norm\<close> read as a number, the weight of a vertex in an entry list, and the
  candidates of a vertex in a vertex map.
\<close>

definition vertex_entry :: "nat \<Rightarrow> mesh_vertex list \<Rightarrow> nat \<Rightarrow> (nat \<times> real) list" where
  "vertex_entry gi vs v =
     (case group_weight gi (groups (vs ! v)) of None \<Rightarrow> [] | Some w \<Rightarrow> [(v, w)])"

definition group_entries :: "nat \<Rightarrow> mesh_vertex list \<Rightarrow> (nat \<times> real) list" where
  "group_entries gi vs = concat (map (vertex_entry gi vs) [0..<length vs])"





section \<open>Concrete inputs\<close>

text \<open>A settings record for a game without body parts, at the add-on's default tolerance,
  and an object without armature.\<close>

definition oblivion_cfg :: export_settings where
  "oblivion_cfg =
     \<lparr>game = ''OBLIVION'', epsilon = 0.0001, scale = (1, 1, 1), polygon_parts = [],
      n_uv_sets = 1\<rparr>"

definition no_skin :: skin_settings where
  "no_skin =
     \<lparr>parent_is_armature = False, vertex_groups = [], bones = [], skeleton_root = [],
      armature_full_name = [], block_to_obj = []\<rparr>"

text \<open>A single quad with one UV layer and one material.\<close>

definition quad_poly :: polygon where
  "quad_poly =
     \<lparr>poly_index = 0, material_index = 0, use_smooth = False, poly_normal = (0, 0, 1),
      loop_indices = [0, 1, 2, 3]\<rparr>"

definition quad_mesh :: mesh where
  "quad_mesh =
     \<lparr>vertices = [\<lparr>co = (0, 0, 0), groups = []\<rparr>, \<lparr>co = (1, 0, 0), groups = []\<rparr>,
                  \<lparr>co = (1, 1, 0), groups = []\<rparr>, \<lparr>co = (0, 1, 0), groups = []\<rparr>],
      loops = [\<lparr>vertex_index = 0, loop_normal = (0, 0, 1)\<rparr>,
               \<lparr>vertex_index = 1, loop_normal = (0, 0, 1)\<rparr>,
               \<lparr>vertex_index = 2, loop_normal = (0, 0, 1)\<rparr>,
               \<lparr>vertex_index = 3, loop_normal = (0, 0, 1)\<rparr>],
      polygons = [quad_poly],
      uv_layers = [[(0.1, 0.2), (0.9, 0.2), (0.9, 0.7), (0.1, 0.7)]],
      mesh_vertex_colors = [],
      materials = [Some \<lparr>model_space_normals = False\<rparr>]\<rparr>"

text \<open>The same object mirrored in all three axes, and scaled so that the components sum
  to zero.\<close>

definition mirrored_cfg :: export_settings where
  "mirrored_cfg = oblivion_cfg\<lparr>scale := (- 1, - 1, - 1)\<rparr>"

definition zero_sum_cfg :: export_settings where
  "zero_sum_cfg = oblivion_cfg\<lparr>scale := (1, 1, - 2)\<rparr>"

text \<open>A Skyrim export of the quad with a second UV layer.\<close>

definition skyrim_cfg :: export_settings where
  "skyrim_cfg = oblivion_cfg\<lparr>game := ''SKYRIM''\<rparr>"

definition two_uv_mesh :: mesh where
  "two_uv_mesh =
     quad_mesh\<lparr>uv_layers := [[(0.1, 0.2), (0.9, 0.2), (0.9, 0.7), (0.1, 0.7)],
                              [(0, 0), (1, 0), (1, 1), (0, 1)]]\<rparr>"



text \<open>
  Three triangles around vertex 0 with one UV layer. The three corners at vertex 0 carry the
  UVs \<open>(0, 0)\<close>, \<open>(0.00008, 0)\<close> and \<open>(0.00016, 0)\<close>: neighbours differ by less than the
  tolerance \<open>0.0001\<close>, the first and the last by more.
\<close>

definition seam_poly :: "nat \<Rightarrow> polygon" where
  "seam_poly k =
     \<lparr>poly_index = k, material_index = 0, use_smooth = False, poly_normal = (0, 0, 1),
      loop_indices = [3 * k, 3 * k + 1, 3 * k + 2]\<rparr>"

definition seam_mesh :: mesh where
  "seam_mesh =
     \<lparr>vertices = [\<lparr>co = (0, 0, 0), groups = []\<rparr>, \<lparr>co = (1, 0, 0), groups = []\<rparr>,
                  \<lparr>co = (1, 1, 0), groups = []\<rparr>, \<lparr>co = (0, 1, 0), groups = []\<rparr>,
                  \<lparr>co = (- 1, 1, 0), groups = []\<rparr>],
      loops = [\<lparr>vertex_index = 0, loop_normal = (0, 0, 1)\<rparr>,
               \<lparr>vertex_index = 1, loop_normal = (0, 0, 1)\<rparr>,
               \<lparr>vertex_index = 2, loop_normal = (0, 0, 1)\<rparr>,
               \<lparr>vertex_index = 0, loop_normal = (0, 0, 1)\<rparr>,
               \<lparr>vertex_index = 2, loop_normal = (0, 0, 1)\<rparr>,
               \<lparr>vertex_index = 3, loop_normal = (0, 0, 1)\<rparr>,
               \<lparr>vertex_index = 0, loop_normal = (0, 0, 1)\<rparr>,
               \<lparr>vertex_index = 3, loop_normal = (0, 0, 1)\<rparr>,
               \<lparr>vertex_index = 4, loop_normal = (0, 0, 1)\<rparr>],
      polygons = [seam_poly 0, seam_poly 1, seam_poly 2],
      uv_layers = [[(0, 0), (1, 0), (1, 1), (0.00008, 0), (1, 1), (0, 1),
                    (0.00016, 0), (0, 1), (0.5, 0.5)]],
      mesh_vertex_colors = [],
      materials = [Some \<lparr>model_space_normals = False\<rparr>]\<rparr>"

text \<open>
  A stand-in for the armature's matrices: bone \<open>Bip01\<close> has the matrix \<open>1\<close> at rest and
  \<open>2\<close> when posed; the offset pairs the overall transform with the bone matrix.
\<close>

definition pose_example :: "string \<Rightarrow> string \<Rightarrow> real option" where
  "pose_example position name =
     (if name = ''Bip01'' then Some (if position = ''REST'' then 1 else 2) else None)"

definition offset_example :: "real \<Rightarrow> real \<Rightarrow> error + real \<times> real" where
  "offset_example geomtransform m = Inr (geomtransform, m)"

definition resting_armature :: armature where
  "resting_armature = \<lparr>pose_position = ''REST''\<rparr>"

definition bip01_block :: n_block where
  "bip01_block = \<lparr>is_NiNode = True, block_name = ''Bip01''\<rparr>"

definition stray_block :: n_block where
  "stray_block = \<lparr>is_NiNode = True, block_name = ''Stray''\<rparr>"




text \<open>
  Large meshes without material, UV layer and vertex colour. \<open>tri_mesh nv f n\<close> has \<open>nv\<close>
  vertices and \<open>n\<close> triangles, triangle \<open>k\<close> having the loops \<open>3k\<close>, \<open>3k+1\<close>, \<open>3k+2\<close> and
  loop \<open>l\<close> the vertex \<open>f l\<close>. \<open>disc_mesh n\<close> is a fan of \<open>n\<close> triangles \<open>(0, k+1, k+2)\<close>
  around vertex 0 over \<open>n + 2\<close> vertices; \<open>stack_mesh n\<close> is \<open>n\<close> copies of the triangle
  \<open>(0, 1, 2)\<close>.
\<close>

definition tri_poly :: "nat \<Rightarrow> polygon" where
  "tri_poly k =
     \<lparr>poly_index = k, material_index = 0, use_smooth = False, poly_normal = (0, 0, 1),
      loop_indices = [3 * k, 3 * k + 1, 3 * k + 2]\<rparr>"

definition tri_mesh :: "nat \<Rightarrow> (nat \<Rightarrow> nat) \<Rightarrow> nat \<Rightarrow> mesh" where
  "tri_mesh nv f n =
     \<lparr>vertices = map (\<lambda>i. \<lparr>co = (real i, 0, 0), groups = []\<rparr>) [0..<nv],
      loops = map (\<lambda>l. \<lparr>vertex_index = f l, loop_normal = (0, 0, 1)\<rparr>) [0..<3 * n],
      polygons = map tri_poly [0..<n],
      uv_layers = [],
      mesh_vertex_colors = [],
      materials = []\<rparr>"

definition disc_vertex :: "nat \<Rightarrow> nat" where
  "disc_vertex l = (if l mod 3 = 0 then 0 else l div 3 + l mod 3)"

definition disc_mesh :: "nat \<Rightarrow> mesh" where
  "disc_mesh n = tri_mesh (n + 2) disc_vertex n"

definition stack_vertex :: "nat \<Rightarrow> nat" where
  "stack_vertex l = l mod 3"

definition stack_mesh :: "nat \<Rightarrow> mesh" where
  "stack_mesh n = tri_mesh 3 stack_vertex n"

text \<open>Settings without UV sets, and a Skyrim export in which no polygon has a body part.\<close>

definition plain_cfg :: export_settings where
  "plain_cfg = oblivion_cfg\<lparr>n_uv_sets := 0\<rparr>"

definition partless_cfg :: "nat \<Rightarrow> export_settings" where
  "partless_cfg n = plain_cfg\<lparr>game := ''SKYRIM'', polygon_parts := replicate n (- 1)\<rparr>"

text \<open>
  The lists of an export without attributes in which the first \<open>c\<close> source vertices have
  been welded, each to the welded vertex of its own index.
\<close>

definition welded_upto :: "mesh \<Rightarrow> nat \<Rightarrow> export_state \<Rightarrow> bool" where
  "welded_upto eval_mesh c st =
     (dedup_inv eval_mesh False st \<and> length (vertquad_list st) = c \<and>
      (\<forall>v < length (vertices eval_mesh). candidates st v = (if v < c then [v] else [])))"

text \<open>
  Triangle \<open>k\<close> of such a mesh takes the number of welded source vertices from \<open>c\<close> to
  \<open>c'\<close> when each of its corners is an already welded vertex or the next one; and the
  polygons that triangle \<open>k\<close> adds to \<^verbatim>\<open>polygons_without_bodypart\<close>.
\<close>

definition tri_ok :: "(nat \<Rightarrow> nat) \<Rightarrow> nat \<Rightarrow> nat \<Rightarrow> nat \<Rightarrow> bool" where
  "tri_ok f c k c' =
     (let c1 = max c (Suc (f (3 * k)));
          c2 = max c1 (Suc (f (3 * k + 1)));
          c3 = max c2 (Suc (f (3 * k + 2))) in
      f (3 * k) \<le> c \<and> f (3 * k + 1) \<le> c1 \<and> f (3 * k + 2) \<le> c2 \<and> c' = c3)"

definition unassigned :: "export_settings \<Rightarrow> nat \<Rightarrow> polygon list" where
  "unassigned cfg k =
     (if game cfg \<notin> {''FALLOUT_3'', ''SKYRIM''} \<or> polygon_parts cfg = [] then []
      else if polygon_parts cfg ! k \<ge> 0 then [] else [tri_poly k])"


section \<open>Properties\<close>

subsection \<open>Sequencing of results\<close>

lemma bind_err_Inl [simp]: "bind_err (Inl e) f = Inl e"
  by (simp add: bind_err_def)

lemma bind_err_Inr [simp]: "bind_err (Inr x) f = f x"
  by (simp add: bind_err_def)

lemma bind_err_eq_Inr: "bind_err m f = Inr y \<longleftrightarrow> (\<exists>x. m = Inr x \<and> f x = Inr y)"
  by (cases m) simp_all

lemma py_nth_eq_Inr: "py_nth xs i = Inr x \<longleftrightarrow> i < length xs \<and> x = xs ! i"
  by (auto simp: py_nth_def)

lemma py_nth_in_range [simp]: "i < length xs \<Longrightarrow> py_nth xs i = Inr (xs ! i)"
  by (simp add: py_nth_def)

lemma map_err_length: "map_err f xs = Inr ys \<Longrightarrow> length ys = length xs"
  by (induction xs arbitrary: ys) (auto simp: bind_err_eq_Inr)

lemma map_err_nth:
  "map_err f xs = Inr ys \<Longrightarrow> i < length xs \<Longrightarrow> f (xs ! i) = Inr (ys ! i)"
proof (induction xs arbitrary: ys i)
  case Nil
  then show ?case by simp
next
  case (Cons x xs)
  from Cons.prems(1) obtain y ys' where
    y: "f x = Inr y" and ys': "map_err f xs = Inr ys'" and ys: "ys = y # ys'"
    by (auto simp: bind_err_eq_Inr)
  show ?case
  proof (cases i)
    case 0
    with y ys show ?thesis by simp
  next
    case (Suc k)
    with Cons.prems(2) have "k < length xs" by simp
    from Cons.IH [OF ys' this] Suc ys show ?thesis by simp
  qed
qed

lemma map_err_all_Inr:
  "(\<And>x. x \<in> set xs \<Longrightarrow> f x = Inr (g x)) \<Longrightarrow> map_err f xs = Inr (map g xs)"
  by (induction xs) simp_all

lemma fold_err_append:
  "fold_err f (xs @ ys) s = bind_err (fold_err f xs s) (fold_err f ys)"
proof (induction xs arbitrary: s)
  case Nil
  show ?case by simp
next
  case (Cons x xs)
  show ?case
  proof (cases "f x s")
    case (Inl e)
    then show ?thesis by simp
  next
    case (Inr s')
    with Cons.IH show ?thesis by simp
  qed
qed

subsection \<open>Triangles of one polygon\<close>

lemma weld_corner_triangles:
  "weld_corner eps hn hc hu v q st = Inr (k, st') \<Longrightarrow>
     triangles st' = triangles st \<and> bodypartfacemap st' = bodypartfacemap st \<and>
     polygons_without_bodypart st' = polygons_without_bodypart st"
  by (auto simp: weld_corner_def bind_err_eq_Inr Let_def split: if_splits)

lemma export_corners_triangles:
  "export_corners cfg m hn poly ls st = Inr (f, st') \<Longrightarrow>
     triangles st' = triangles st \<and> bodypartfacemap st' = bodypartfacemap st \<and>
     polygons_without_bodypart st' = polygons_without_bodypart st \<and> length f = length ls"
proof (induction ls arbitrary: st f)
  case Nil
  then show ?case by simp
next
  case (Cons l ls)
  from Cons.prems obtain k st1 ks where
    c: "export_corner cfg m hn poly l st = Inr (k, st1)" and
    r: "export_corners cfg m hn poly ls st1 = Inr (ks, st')" and f: "f = k # ks"
    by (auto simp: bind_err_eq_Inr)
  from c have "triangles st1 = triangles st \<and> bodypartfacemap st1 = bodypartfacemap st \<and>
     polygons_without_bodypart st1 = polygons_without_bodypart st"
    by (auto simp: export_corner_def bind_err_eq_Inr dest: weld_corner_triangles)
  with Cons.IH [OF r] f show ?case by simp
qed

lemma add_triangle_triangles:
  "add_triangle cfg poly f i st = Inr st' \<Longrightarrow>
     triangles st' = triangles st @ [face_triangle (scale cfg) f i]"
  by (auto simp: add_triangle_def Let_def bind_err_eq_Inr split: if_splits)

lemma fold_add_triangle_triangles:
  "fold_err (add_triangle cfg poly f) is st = Inr st' \<Longrightarrow>
     triangles st' = triangles st @ map (face_triangle (scale cfg) f) is"
proof (induction "is" arbitrary: st)
  case Nil
  then show ?case by simp
next
  case (Cons i "is")
  from Cons.prems obtain st1 where
    a: "add_triangle cfg poly f i st = Inr st1" and
    r: "fold_err (add_triangle cfg poly f) is st1 = Inr st'"
    by (auto simp: bind_err_eq_Inr)
  from Cons.IH [OF r] add_triangle_triangles [OF a] show ?case by simp
qed

lemma quad_corners:
  "\<exists>st'. export_corners cfg quad_mesh True quad_poly (loop_indices quad_poly) (init_state quad_mesh)
          = Inr ([0, 1, 2, 3], st')"
  by (simp add: export_corner_def weld_corner_def face_corner_data_def init_state_def
      quad_mesh_def quad_poly_def)

lemma quad_polygon:
  assumes "game cfg = ''OBLIVION''"
  shows "\<exists>st''. export_polygon cfg quad_mesh True True 0 quad_poly (init_state quad_mesh) = Inr st''"
proof -
  from quad_corners [of cfg] obtain st' where
    "export_corners cfg quad_mesh True quad_poly (loop_indices quad_poly) (init_state quad_mesh)
       = Inr ([0, 1, 2, 3], st')" ..
  moreover have "length (loop_indices quad_poly) = 4" "material_index quad_poly = 0"
    by (simp_all add: quad_poly_def)
  ultimately show ?thesis
    using assms by (simp add: export_polygon_def add_triangle_def upt_rec)
qed

text \<open>
  Claim C4, as amended. A polygon of the exported material with three or four corners, whose
  corners were given the indices \<open>f_index\<close>, adds the triangles
  \<open>(f[0], f[1+i], f[2+i])\<close> for \<open>i = 0, ..., N-3\<close> in this order when the sum of the three
  scale components is positive, and \<open>(f[0], f[2+i], f[1+i])\<close> when the sum is zero or
  negative.
\<close>

theorem fan_triangles:
  assumes mat: "\<not> (has_mat \<and> material_index poly \<noteq> b_mat_index)"
    and n: "length (loop_indices poly) = 3 \<or> length (loop_indices poly) = 4"
    and corners: "export_corners cfg m hn poly (loop_indices poly) st = Inr (f_index, st')"
    and poly: "export_polygon cfg m hn has_mat b_mat_index poly st = Inr st''"
  shows "length f_index = length (loop_indices poly) \<and>
         triangles st'' = triangles st @
           map (\<lambda>i. case scale cfg of (sx, sy, sz) \<Rightarrow>
                  if 0 < sx + sy + sz then (f_index ! 0, f_index ! (1 + i), f_index ! (2 + i))
                  else (f_index ! 0, f_index ! (2 + i), f_index ! (1 + i)))
             [0..<length (loop_indices poly) - 2]"
proof -
  from mat n corners poly have
    "fold_err (add_triangle cfg poly f_index) [0..<length (loop_indices poly) - 2] st' = Inr st''"
    by (auto simp: export_polygon_def Let_def)
  from fold_add_triangle_triangles [OF this] export_corners_triangles [OF corners]
  show ?thesis
    by (simp add: face_triangle_def [abs_def])
qed

text \<open>The quad \<open>[0, 1, 2, 3]\<close> at scale \<open>(1, 1, 1)\<close> and at scale \<open>(-1, -1, -1)\<close>.\<close>

theorem fan_triangles_witness:
  "map_sum id triangles
     (export_polygon oblivion_cfg quad_mesh True True 0 quad_poly (init_state quad_mesh))
     = Inr [(0, 1, 2), (0, 2, 3)]
   \<and> map_sum id triangles
     (export_polygon mirrored_cfg quad_mesh True True 0 quad_poly (init_state quad_mesh))
     = Inr [(0, 2, 1), (0, 3, 2)]"
proof -
  have len: "length (loop_indices quad_poly) = 4" and mat: "material_index quad_poly = 0"
    by (simp_all add: quad_poly_def)
  have tri: "triangles (init_state quad_mesh) = []"
    by (simp add: init_state_def)
  obtain c1 where c1:
    "export_corners oblivion_cfg quad_mesh True quad_poly (loop_indices quad_poly)
       (init_state quad_mesh) = Inr ([0, 1, 2, 3], c1)"
    using quad_corners by blast
  obtain p1 where p1:
    "export_polygon oblivion_cfg quad_mesh True True 0 quad_poly (init_state quad_mesh) = Inr p1"
    using quad_polygon [of oblivion_cfg] by (auto simp: oblivion_cfg_def)
  have "triangles p1 = [(0, 1, 2), (0, 2, 3)]"
    using fan_triangles [OF _ _ c1 p1] len mat tri
    by (simp add: oblivion_cfg_def upt_rec)
  moreover
  obtain c2 where c2:
    "export_corners mirrored_cfg quad_mesh True quad_poly (loop_indices quad_poly)
       (init_state quad_mesh) = Inr ([0, 1, 2, 3], c2)"
    using quad_corners by blast
  obtain p2 where p2:
    "export_polygon mirrored_cfg quad_mesh True True 0 quad_poly (init_state quad_mesh) = Inr p2"
    using quad_polygon [of mirrored_cfg] by (auto simp: mirrored_cfg_def oblivion_cfg_def)
  have "triangles p2 = [(0, 2, 1), (0, 3, 2)]"
    using fan_triangles [OF _ _ c2 p2] len mat tri
    by (simp add: mirrored_cfg_def oblivion_cfg_def upt_rec)
  ultimately show ?thesis
    using p1 p2 by simp
qed

text \<open>Claim C4 as written swaps for a negative sum only. At scale \<open>(1, 1, -2)\<close> the sum
  is zero, not negative, and the quad is exported with the swapped winding.\<close>

theorem zero_scale_sum_counterexample:
  "scale zero_sum_cfg = (1, 1, - 2) \<and> \<not> ((1::real) + 1 + (- 2) < 0)
   \<and> map_sum id triangles
       (export_polygon zero_sum_cfg quad_mesh True True 0 quad_poly (init_state quad_mesh))
     = Inr [(0, 2, 1), (0, 3, 2)]"
  by (simp add: zero_sum_cfg_def oblivion_cfg_def quad_mesh_def quad_poly_def
      export_polygon_def export_corner_def weld_corner_def face_corner_data_def init_state_def
      add_triangle_def face_triangle_def upt_rec)

subsection \<open>UV coordinates written by \<^verbatim>\<open>set_geom_data\<close>\<close>

lemma write_uv_Inr:
  assumes "write_uv uvc j i d = Inr r" "uvc ! i \<noteq> []"
  shows "i < length uvc \<and> j < length (uvc ! i) \<and> r = (fst (uvc ! i ! j), 1 - snd (uvc ! i ! j))"
  using assms
  by (auto simp: write_uv_def bind_err_eq_Inr py_nth_eq_Inr split: prod.splits)

text \<open>
  Claim C9. When \<^verbatim>\<open>set_geom_data\<close> returns, every UV set \<open>j\<close> it allocated has one entry
  per vertex, and for every vertex \<open>i\<close> that has UV data the entry is the source coordinate
  \<open>uv_coords[i][j]\<close> with \<open>u\<close> unchanged and \<open>v\<close> replaced by \<open>1 - v\<close>.
\<close>

theorem uv_v_flipped:
  assumes run: "set_geom_data n vp ns vc uvc layers = Inr d"
    and j: "j < n" and i: "i < length vp" and present: "uvc ! i \<noteq> []"
  shows "length (uv_sets d) = n \<and> length (uv_sets d ! j) = length vp \<and>
         i < length uvc \<and> j < length (uvc ! i) \<and>
         uv_sets d ! j ! i = (fst (uvc ! i ! j), 1 - snd (uvc ! i ! j))"
proof -
  from run have sets:
    "map_err (\<lambda>j. map_err (\<lambda>i. write_uv uvc j i (0, 0)) [0..<length vp]) [0..<n] = Inr (uv_sets d)"
    by (auto simp: set_geom_data_def bind_err_eq_Inr)
  from map_err_length [OF sets] have len: "length (uv_sets d) = n" by simp
  from map_err_nth [OF sets, of j] j
  have row: "map_err (\<lambda>i. write_uv uvc j i (0, 0)) [0..<length vp] = Inr (uv_sets d ! j)"
    by simp
  from map_err_length [OF row] have rlen: "length (uv_sets d ! j) = length vp" by simp
  from map_err_nth [OF row, of i] i
  have "write_uv uvc j i (0, 0) = Inr (uv_sets d ! j ! i)" by simp
  from write_uv_Inr [OF this present] len rlen show ?thesis by simp
qed

text \<open>Two vertices with the source UVs \<open>(0.1, 0.2)\<close> and \<open>(0.9, 0.7)\<close>: \<open>v = 0.2\<close> is
  written as \<open>0.8\<close>.\<close>

theorem uv_v_flipped_witness:
  "map_sum id uv_sets (set_geom_data 1 [(0, 0, 0), (1, 0, 0)] [] [] [[(0.1, 0.2)], [(0.9, 0.7)]] [[]])
     = Inr [[(0.1, 0.8), (0.9, 0.3)]]"
proof -
  obtain d where d: "set_geom_data 1 [(0, 0, 0), (1, 0, 0)] [] [] [[(0.1, 0.2)], [(0.9, 0.7)]] [[]] = Inr d"
    by (simp add: set_geom_data_def write_uv_def upt_rec)
  have "length (uv_sets d) = 1 \<and> length (uv_sets d ! 0) = 2 \<and> uv_sets d ! 0 ! 0 = (0.1, 0.8)"
    using uv_v_flipped [OF d, of 0 0] by simp
  moreover have "uv_sets d ! 0 ! 1 = (0.9, 0.3)"
    using uv_v_flipped [OF d, of 0 1] by simp
  ultimately have "uv_sets d = [[(0.1, 0.8), (0.9, 0.3)]]"
    by (cases "uv_sets d"; cases "hd (uv_sets d)"; cases "tl (hd (uv_sets d))") auto
  with d show ?thesis by simp
qed

subsection \<open>The skeleton root\<close>





subsection \<open>The UV layer check\<close>

text \<open>
  Claim C10. For FALLOUT_3 and SKYRIM a mesh with more than one UV layer fails in every
  material at the check of lines 220-222, before the polygon loop, so the export of a mesh
  that has vertices fails with that error and returns no shape. (A mesh without vertices
  never reaches a material: line 92 returns before the loop, and nothing is exported.)
\<close>

theorem multiple_uv_layers_rejected:
  assumes g: "game cfg = ''FALLOUT_3'' \<or> game cfg = ''SKYRIM''"
    and uv: "length (uv_layers eval_mesh) > 1"
  shows "export_material cfg b_obj eval_mesh b_mat_index b_mat = Inl (MultipleUVLayers (game cfg))
       \<and> export_tri_shapes cfg b_obj parent_is_collision eval_mesh =
           (if vertices eval_mesh = [] then Inr [] else Inl (MultipleUVLayers (game cfg)))"
proof -
  have m: "export_material cfg b_obj eval_mesh i mat = Inl (MultipleUVLayers (game cfg))" for i mat
    using g uv by (auto simp: export_material_def Let_def)
  have first: "map_err (\<lambda>(i, mat). export_material cfg b_obj eval_mesh i mat) (enumerate k ms)
          = Inl (MultipleUVLayers (game cfg))" if "ms \<noteq> []" for ms k
  proof -
    from that obtain x xs where "ms = x # xs" by (cases ms) auto
    then show ?thesis by (simp add: m)
  qed
  show ?thesis
  proof (cases "vertices eval_mesh = []")
    case True
    then show ?thesis by (simp add: export_tri_shapes_def m)
  next
    case False
    then show ?thesis
      by (simp add: export_tri_shapes_def Let_def first m [of b_mat_index b_mat])
  qed
qed

theorem multiple_uv_layers_rejected_witness:
  "export_material skyrim_cfg no_skin two_uv_mesh 0 (Some \<lparr>model_space_normals = False\<rparr>)
     = Inl (MultipleUVLayers ''SKYRIM'')
   \<and> export_tri_shapes skyrim_cfg no_skin False two_uv_mesh = Inl (MultipleUVLayers ''SKYRIM'')"
  using multiple_uv_layers_rejected [of skyrim_cfg two_uv_mesh no_skin 0
      "Some \<lparr>model_space_normals = False\<rparr>" False]
  by (simp add: skyrim_cfg_def oblivion_cfg_def two_uv_mesh_def quad_mesh_def)


subsection \<open>Welding face corners\<close>

lemma py_max_gt:
  assumes "ds \<noteq> []"
  shows "eps < py_max ds \<longleftrightarrow> (\<exists>d \<in> set ds. eps < d)"
proof -
  from assms obtain x xs where ds: "ds = x # xs" by (cases ds) auto
  have "py_max ds = Max (set ds)"
    using Max.set_eq_fold [of x xs] by (simp add: ds)
  then show ?thesis
    using assms by (simp add: Max_gr_iff)
qed

lemma max_uv_diff_same_length:
  assumes "length new = length old"
  shows "max_uv_diff i new old =
           Inr (py_max (map (\<lambda>k. \<bar>uv_component i (new ! k) - uv_component i (old ! k)\<bar>)
                          [0..<length old]))"
proof -
  have "map_err (\<lambda>uv_index.
          bind_err (py_nth new uv_index) (\<lambda>n.
            Inr \<bar>uv_component i n - uv_component i (old ! uv_index)\<bar>)) [0..<length old]
        = Inr (map (\<lambda>k. \<bar>uv_component i (new ! k) - uv_component i (old ! k)\<bar>) [0..<length old])"
    by (rule map_err_all_Inr) (simp add: assms)
  then show ?thesis by (simp add: max_uv_diff_def)
qed

lemma uv_component_01: "uv_component 0 a = fst a" "uv_component (Suc 0) a = snd a"
  by (cases a; simp)+

lemma uv_part_new:
  assumes len: "length new = length old" and ne: "old \<noteq> []"
  shows "bind_err (max_uv_diff 0 new old) (\<lambda>d0.
               if d0 > eps then Inr True
               else bind_err (max_uv_diff 1 new old) (\<lambda>d1. Inr (d1 > eps)))
         = Inr (\<not> list_all2 (uv_within eps) new old)"
proof -
  let ?d = "\<lambda>i. map (\<lambda>k. \<bar>uv_component i (new ! k) - uv_component i (old ! k)\<bar>) [0..<length old]"
  have ne': "?d i \<noteq> []" for i using ne by simp
  have "(eps < py_max (?d 0) \<or> eps < py_max (?d 1)) \<longleftrightarrow> \<not> list_all2 (uv_within eps) new old"
    unfolding py_max_gt [OF ne']
    by (auto simp: list_all2_conv_all_nth len uv_within_def uv_component_01 not_le)
  then show ?thesis
    by (auto simp: max_uv_diff_same_length [OF len])
qed

lemma vec3_differs_iff: "vec3_differs eps a b \<longleftrightarrow> \<not> vec3_within eps a b"
  by (auto simp: vec3_differs_def vec3_within_def split: prod.splits)

lemma rgba_differs_iff: "rgba_differs eps a b \<longleftrightarrow> \<not> rgba_within eps a b"
  by (auto simp: rgba_differs_def rgba_within_def split: prod.splits)

lemma is_new_iff_not_agree:
  assumes "corner_shape m hn new" "corner_shape m hn old"
  shows "is_new_face_corner_data eps new old = Inr (\<not> agree_within eps new old)"
proof -
  obtain fv fuv fn fc where new: "new = (fv, fuv, fn, fc)" by (cases new) auto
  obtain fv' fuv' fn' fc' where old: "old = (fv', fuv', fn', fc')" by (cases old) auto
  from assms have len: "length fuv = length fuv'"
    and n: "(fn = None) = (fn' = None)" and c: "(fc = None) = (fc' = None)"
    by (auto simp: corner_shape_def new old)
  have uv: "(if fuv' \<noteq> [] then
             bind_err (max_uv_diff 0 fuv fuv') (\<lambda>d0.
               if d0 > eps then Inr True
               else bind_err (max_uv_diff 1 fuv fuv') (\<lambda>d1. Inr (d1 > eps)))
           else Inr False) = Inr (\<not> list_all2 (uv_within eps) fuv fuv')"
    using len by (cases "fuv' = []") (simp_all add: uv_part_new)
  show ?thesis
    using n c
    by (cases fn; cases fn'; cases fc; cases fc')
       (simp_all add: is_new_face_corner_data_def new old uv agree_within_def
          vec3_differs_iff rgba_differs_iff)
qed

lemma find_vertquad_find:
  assumes "\<forall>j \<in> set js. j < length vql"
    and "\<forall>q \<in> set vql. corner_shape m hn q"
    and "corner_shape m hn new"
  shows "find_vertquad eps new vql js = Inr (find (\<lambda>j. agree_within eps new (vql ! j)) js)"
  using assms(1)
proof (induction js)
  case Nil
  show ?case by simp
next
  case (Cons j js)
  then have j: "j < length vql" and rest: "\<forall>j \<in> set js. j < length vql" by simp_all
  from j assms(2) have "corner_shape m hn (vql ! j)" by simp
  from is_new_iff_not_agree [OF assms(3) this] Cons.IH [OF rest] j
  show ?case by simp
qed

lemma face_corner_data_shape:
  assumes "face_corner_data m hn poly l = Inr (v, q)"
  shows "corner_shape m hn q \<and> v < length (vertices m)"
proof -
  from assms obtain lp vertex fuv f_col where
    lp: "py_nth (loops m) l = Inr lp" and v: "v = vertex_index lp" and
    vx: "py_nth (vertices m) v = Inr vertex" and
    fuv: "map_err (\<lambda>uv_layer. py_nth uv_layer l) (uv_layers m) = Inr fuv" and
    col: "(case mesh_vertex_colors m of [] \<Rightarrow> Inr None
           | layer0 # _ \<Rightarrow> bind_err (py_nth layer0 l) (\<lambda>c. Inr (Some c))) = Inr f_col" and
    q: "q = (co vertex, fuv,
             (if hn then Some (if use_smooth poly then loop_normal lp else poly_normal poly) else None),
             f_col)"
    by (auto simp: face_corner_data_def bind_err_eq_Inr Let_def)
  from col have "(f_col \<noteq> None) = (mesh_vertex_colors m \<noteq> [])"
    by (cases "mesh_vertex_colors m") (auto simp: bind_err_eq_Inr)
  with map_err_length [OF fuv] vx show ?thesis
    by (simp add: corner_shape_def q py_nth_eq_Inr del: not_None_eq)
qed

lemma candidates_same [simp]:
  "candidates (st\<lparr>vertex_map := vm\<rparr>) v = (case vm ! v of None \<Rightarrow> [] | Some js \<Rightarrow> js)"
  by (simp add: candidates_def)

lemma weld_corner_result:
  assumes inv: "dedup_inv m hn st" and shape: "corner_shape m hn q"
    and v: "v < length (vertices m)"
  shows "weld_corner eps hn hc hu v q st =
           (case find (\<lambda>j. agree_within eps q (vertquad_list st ! j)) (candidates st v) of
              Some j \<Rightarrow> Inr (j, st)
            | None \<Rightarrow>
                if length (vertquad_list st) > 65535 then Inl TooManyVertices
                else Inr (length (vertquad_list st), append_corner hn hc hu v q st))"
proof -
  from inv v have vlen: "v < length (vertex_map st)"
    and range: "\<forall>j \<in> set (candidates st v). j < length (vertquad_list st)"
    and shapes: "\<forall>q \<in> set (vertquad_list st). corner_shape m hn q"
    and bound: "length (vertquad_list st) \<le> 65536"
    by (auto simp: dedup_inv_def)
  have found: "(case vertex_map st ! v of None \<Rightarrow> Inr None
          | Some js \<Rightarrow> find_vertquad eps q (vertquad_list st) js)
        = Inr (find (\<lambda>j. agree_within eps q (vertquad_list st ! j)) (candidates st v))"
  proof (cases "vertex_map st ! v")
    case None
    then show ?thesis by (simp add: candidates_def)
  next
    case (Some js)
    with range have "\<forall>j \<in> set js. j < length (vertquad_list st)" by (simp add: candidates_def)
    from find_vertquad_find [OF this shapes shape] Some show ?thesis
      by (simp add: candidates_def)
  qed
  show ?thesis
  proof (cases "find (\<lambda>j. agree_within eps q (vertquad_list st ! j)) (candidates st v)")
    case None
    then show ?thesis
      using vlen found
      by (simp add: weld_corner_def Let_def append_corner_def candidates_def)
  next
    case (Some j)
    then have "j \<in> set (candidates st v)"
      by (auto simp: find_Some_iff)
    with range have "j < length (vertquad_list st)" by simp
    with bound Some show ?thesis
      using vlen found by (simp add: weld_corner_def Let_def)
  qed
qed

lemma candidates_append_corner:
  "w < length (vertex_map st) \<Longrightarrow>
   candidates (append_corner hn hc hu v q st) w =
     (if w = v then candidates st v @ [length (vertquad_list st)] else candidates st w)"
  by (simp add: append_corner_def candidates_def)

lemma append_corner_fields:
  "length (vertex_map (append_corner hn hc hu v q st)) = length (vertex_map st)"
  "vertquad_list (append_corner hn hc hu v q st) = vertquad_list st @ [q]"
  "triangles (append_corner hn hc hu v q st) = triangles st"
  by (simp_all add: append_corner_def)

lemma append_corner_inv:
  assumes inv: "dedup_inv m hn st" and shape: "corner_shape m hn q"
    and v: "v < length (vertices m)" and room: "length (vertquad_list st) \<le> 65535"
  shows "dedup_inv m hn (append_corner hn (mesh_vertex_colors m \<noteq> []) (uv_layers m \<noteq> []) v q st)"
proof -
  let ?st' = "append_corner hn (mesh_vertex_colors m \<noteq> []) (uv_layers m \<noteq> []) v q st"
  let ?n = "length (vertquad_list st)"
  from inv have len: "length (vertex_map st) = length (vertices m)"
    and ne: "\<And>w. w < length (vertex_map st) \<Longrightarrow> vertex_map st ! w \<noteq> Some []"
    and sorted: "\<And>w. w < length (vertex_map st) \<Longrightarrow> sorted_wrt (<) (candidates st w)"
    and range: "\<And>w j. w < length (vertex_map st) \<Longrightarrow> j \<in> set (candidates st w) \<Longrightarrow> j < ?n"
    and cover: "\<And>j. j < ?n \<Longrightarrow> \<exists>w < length (vertex_map st). j \<in> set (candidates st w)"
    and disj: "\<And>w w'. w < length (vertex_map st) \<Longrightarrow> w' < length (vertex_map st) \<Longrightarrow>
                 w \<noteq> w' \<Longrightarrow> set (candidates st w) \<inter> set (candidates st w') = {}"
    and shapes: "\<forall>q \<in> set (vertquad_list st). corner_shape m hn q"
    and vp: "vertex_positions st = map fst (vertquad_list st)"
    and ns: "normals st = (if hn then map (\<lambda>q. the (fst (snd (snd q)))) (vertquad_list st) else [])"
    and vc: "vertex_colors st = (if mesh_vertex_colors m \<noteq> []
                                 then map (\<lambda>q. the (snd (snd (snd q)))) (vertquad_list st) else [])"
    and uvc: "uv_coords st = (if uv_layers m \<noteq> []
                              then map (\<lambda>q. fst (snd q)) (vertquad_list st) else [])"
    by (auto simp: dedup_inv_def)
  from v len have vlen: "v < length (vertex_map st)" by simp
  note cand = candidates_append_corner [where st = st and hn = hn and v = v and q = q]
  have len': "length (vertex_map ?st') = length (vertex_map st)"
    by (rule append_corner_fields)
  have vql': "vertquad_list ?st' = vertquad_list st @ [q]"
    by (rule append_corner_fields)
  have 1: "length (vertex_map ?st') = length (vertices m)"
    using len len' by simp
  have 2: "vertex_map ?st' ! w \<noteq> Some [] \<and> sorted_wrt (<) (candidates ?st' w) \<and>
           (\<forall>j \<in> set (candidates ?st' w). j < length (vertquad_list ?st'))"
    if w: "w < length (vertex_map ?st')" for w
  proof -
    from w len' have w': "w < length (vertex_map st)" by simp
    have "vertex_map ?st' ! w \<noteq> Some []"
      using ne [OF w'] w' by (cases "w = v") (simp_all add: append_corner_def)
    moreover have "sorted_wrt (<) (candidates ?st' w)"
      using sorted [OF w'] range [OF w'] by (auto simp: cand [OF w'] sorted_wrt_append)
    moreover have "\<forall>j \<in> set (candidates ?st' w). j < length (vertquad_list ?st')"
      using range [OF w'] by (auto simp: cand [OF w'] vql' less_Suc_eq)
    ultimately show ?thesis by simp
  qed
  have 3: "\<exists>w < length (vertex_map ?st'). j \<in> set (candidates ?st' w)"
    if j: "j < length (vertquad_list ?st')" for j
  proof (cases "j < ?n")
    case True
    from cover [OF this] obtain w where w: "w < length (vertex_map st)"
      and jw: "j \<in> set (candidates st w)" by blast
    then have "j \<in> set (candidates ?st' w)" by (auto simp: cand [OF w])
    with w len' show ?thesis by auto
  next
    case False
    with j have "j = ?n" by (simp add: vql')
    then have "j \<in> set (candidates ?st' v)" by (simp add: cand [OF vlen])
    with vlen len' show ?thesis by auto
  qed
  have 4: "set (candidates ?st' w) \<inter> set (candidates ?st' w') = {}"
    if w: "w < length (vertex_map ?st')" and w': "w' < length (vertex_map ?st')"
      and neq: "w \<noteq> w'" for w w'
  proof -
    from w w' len' have a: "w < length (vertex_map st)" and b: "w' < length (vertex_map st)"
      by simp_all
    have fresh: "?n \<notin> set (candidates st u)" if "u < length (vertex_map st)" for u
      using range [OF that] by auto
    from disj [OF a b neq] fresh [OF a] fresh [OF b] neq show ?thesis
      by (auto simp: cand [OF a] cand [OF b])
  qed
  have 5: "\<forall>q \<in> set (vertquad_list ?st'). corner_shape m hn q"
    using shapes shape by (simp add: vql')
  have 6: "length (vertquad_list ?st') \<le> 65536"
    using room by (simp add: vql')
  from shape have fn: "hn \<Longrightarrow> fst (snd (snd q)) \<noteq> None"
    and fc: "mesh_vertex_colors m \<noteq> [] \<Longrightarrow> snd (snd (snd q)) \<noteq> None"
    by (auto simp: corner_shape_def split: prod.splits)
  have 7: "vertex_positions ?st' = map fst (vertquad_list ?st')"
    by (simp add: append_corner_def vp)
  have 8: "normals ?st' = (if hn then map (\<lambda>q. the (fst (snd (snd q)))) (vertquad_list ?st') else [])"
    using fn by (auto simp: append_corner_def ns)
  have 9: "vertex_colors ?st' = (if mesh_vertex_colors m \<noteq> []
                                 then map (\<lambda>q. the (snd (snd (snd q)))) (vertquad_list ?st') else [])"
    using fc by (auto simp: append_corner_def vc)
  have 10: "uv_coords ?st' = (if uv_layers m \<noteq> []
                              then map (\<lambda>q. fst (snd q)) (vertquad_list ?st') else [])"
    by (simp add: append_corner_def uvc)
  show ?thesis
    unfolding dedup_inv_def
    using 1 2 3 4 5 6 7 8 9 10 by blast
qed

lemma dedup_inv_init: "dedup_inv m hn (init_state m)"
  by (simp add: dedup_inv_def init_state_def candidates_def)

lemma export_corner_inv:
  assumes "dedup_inv m hn st" "export_corner cfg m hn poly l st = Inr (k, st')"
  shows "dedup_inv m hn st'"
proof -
  from assms(2) obtain v q where data: "face_corner_data m hn poly l = Inr (v, q)"
    and weld: "weld_corner (epsilon cfg) hn (mesh_vertex_colors m \<noteq> []) (uv_layers m \<noteq> []) v q st
                 = Inr (k, st')"
    by (auto simp: export_corner_def bind_err_eq_Inr)
  from face_corner_data_shape [OF data] have shape: "corner_shape m hn q"
    and v: "v < length (vertices m)" by simp_all
  from weld assms(1) append_corner_inv [OF assms(1) shape v] show ?thesis
    by (auto simp: weld_corner_result [OF assms(1) shape v] split: option.splits if_splits)
qed

lemma export_corners_inv:
  "dedup_inv m hn st \<Longrightarrow> export_corners cfg m hn poly ls st = Inr (f, st') \<Longrightarrow> dedup_inv m hn st'"
proof (induction ls arbitrary: st f)
  case Nil
  then show ?case by simp
next
  case (Cons l ls)
  from Cons.prems(2) obtain k st1 ks where
    c: "export_corner cfg m hn poly l st = Inr (k, st1)" and
    r: "export_corners cfg m hn poly ls st1 = Inr (ks, st')"
    by (auto simp: bind_err_eq_Inr)
  from Cons.IH [OF export_corner_inv [OF Cons.prems(1) c] r] show ?case .
qed

lemma dedup_inv_cong:
  assumes "vertex_map st' = vertex_map st" "vertquad_list st' = vertquad_list st"
    "vertex_positions st' = vertex_positions st" "normals st' = normals st"
    "vertex_colors st' = vertex_colors st" "uv_coords st' = uv_coords st"
  shows "dedup_inv m hn st' = dedup_inv m hn st"
  by (simp add: dedup_inv_def candidates_def assms)

lemma add_triangle_dedup:
  "add_triangle cfg poly f i st = Inr st' \<Longrightarrow>
     vertex_map st' = vertex_map st \<and> vertquad_list st' = vertquad_list st \<and>
     vertex_positions st' = vertex_positions st \<and> normals st' = normals st \<and>
     vertex_colors st' = vertex_colors st \<and> uv_coords st' = uv_coords st"
  by (auto simp: add_triangle_def Let_def bind_err_eq_Inr split: if_splits)

lemma fold_add_triangle_dedup:
  "fold_err (add_triangle cfg poly f) is st = Inr st' \<Longrightarrow>
     vertex_map st' = vertex_map st \<and> vertquad_list st' = vertquad_list st \<and>
     vertex_positions st' = vertex_positions st \<and> normals st' = normals st \<and>
     vertex_colors st' = vertex_colors st \<and> uv_coords st' = uv_coords st"
proof (induction "is" arbitrary: st)
  case Nil
  then show ?case by simp
next
  case (Cons i "is")
  from Cons.prems obtain st1 where
    a: "add_triangle cfg poly f i st = Inr st1" and
    r: "fold_err (add_triangle cfg poly f) is st1 = Inr st'"
    by (auto simp: bind_err_eq_Inr)
  from Cons.IH [OF r] add_triangle_dedup [OF a] show ?case by simp
qed

lemma export_polygon_skip:
  "(has_mat \<and> material_index poly \<noteq> i) \<or> length (loop_indices poly) < 3 \<Longrightarrow>
     export_polygon cfg m hn has_mat i poly st = Inr st"
proof (cases "has_mat \<and> material_index poly \<noteq> i")
  case True
  then show ?thesis by (simp add: export_polygon_def)
next
  case False
  assume "(has_mat \<and> material_index poly \<noteq> i) \<or> length (loop_indices poly) < 3"
  with False have "length (loop_indices poly) < 3" by blast
  with False show ?thesis by (simp add: export_polygon_def Let_def)
qed

lemma export_polygon_retained:
  assumes a: "\<not> (has_mat \<and> material_index poly \<noteq> i)" and b: "\<not> length (loop_indices poly) < 3"
    and c: "length (loop_indices poly) = 3 \<or> length (loop_indices poly) = 4"
  shows "export_polygon cfg m hn has_mat i poly st =
           bind_err (export_corners cfg m hn poly (loop_indices poly) st) (\<lambda>(f, st').
                fold_err (add_triangle cfg poly f) [0..<length (loop_indices poly) - 2] st')"
proof -
  have "export_polygon cfg m hn has_mat i poly st =
      (let f_numverts = length (loop_indices poly) in
        if f_numverts < 3 then Inr st
        else if \<not> (f_numverts = 3 \<or> f_numverts = 4) then Inl AssertionError
        else
          bind_err (export_corners cfg m hn poly (loop_indices poly) st)
            (\<lambda>(f_index, st').
               fold_err (add_triangle cfg poly f_index) [0..<f_numverts - 2] st'))"
    unfolding export_polygon_def using a by (rule if_not_P)
  also have "\<dots> = bind_err (export_corners cfg m hn poly (loop_indices poly) st) (\<lambda>(f, st').
                fold_err (add_triangle cfg poly f) [0..<length (loop_indices poly) - 2] st')"
    unfolding Let_def using b c by (simp only: if_False if_True not_not not_True_eq_False not_False_eq_True)
  finally show ?thesis .
qed

lemma export_polygon_assert:
  assumes a: "\<not> (has_mat \<and> material_index poly \<noteq> i)" and b: "\<not> length (loop_indices poly) < 3"
    and c: "\<not> (length (loop_indices poly) = 3 \<or> length (loop_indices poly) = 4)"
  shows "export_polygon cfg m hn has_mat i poly st = Inl AssertionError"
proof -
  have "export_polygon cfg m hn has_mat i poly st =
      (let f_numverts = length (loop_indices poly) in
        if f_numverts < 3 then Inr st
        else if \<not> (f_numverts = 3 \<or> f_numverts = 4) then Inl AssertionError
        else
          bind_err (export_corners cfg m hn poly (loop_indices poly) st)
            (\<lambda>(f_index, st').
               fold_err (add_triangle cfg poly f_index) [0..<f_numverts - 2] st'))"
    unfolding export_polygon_def using a by (rule if_not_P)
  also have "\<dots> = Inl AssertionError"
    unfolding Let_def using b c by (simp only: if_False if_True not_not not_True_eq_False not_False_eq_True)
  finally show ?thesis .
qed


lemma export_polygon_Inr:
  assumes "\<not> ((has_mat \<and> material_index poly \<noteq> i) \<or> length (loop_indices poly) < 3)"
    and run: "export_polygon cfg m hn has_mat i poly st = Inr st'"
  shows "\<exists>f st1. export_corners cfg m hn poly (loop_indices poly) st = Inr (f, st1) \<and>
           fold_err (add_triangle cfg poly f) [0..<length (loop_indices poly) - 2] st1 = Inr st'"
proof -
  from assms(1) have a: "\<not> (has_mat \<and> material_index poly \<noteq> i)"
    and b: "\<not> length (loop_indices poly) < 3" by blast+
  let ?c = "export_corners cfg m hn poly (loop_indices poly) st"
  have c: "length (loop_indices poly) = 3 \<or> length (loop_indices poly) = 4"
  proof (rule ccontr)
    assume "\<not> ?thesis"
    from export_polygon_assert [OF a b this] run show False by simp
  qed
  from run have "bind_err ?c (\<lambda>(f, st').
                fold_err (add_triangle cfg poly f) [0..<length (loop_indices poly) - 2] st') = Inr st'"
    unfolding export_polygon_retained [OF a b c] .
  then obtain x where x: "?c = Inr x" and
    fx: "(case x of (f, st') \<Rightarrow>
            fold_err (add_triangle cfg poly f) [0..<length (loop_indices poly) - 2] st') = Inr st'"
    unfolding bind_err_eq_Inr by blast
  obtain f st1 where "x = (f, st1)" by (cases x)
  with x fx show ?thesis by simp
qed

lemma export_polygon_inv:
  assumes "dedup_inv m hn st" "export_polygon cfg m hn has_mat i poly st = Inr st'"
  shows "dedup_inv m hn st'"
proof (cases "(has_mat \<and> material_index poly \<noteq> i) \<or> length (loop_indices poly) < 3")
  case True
  from export_polygon_skip [OF this] assms show ?thesis by simp
next
  case False
  from export_polygon_Inr [OF False assms(2)] obtain f st1 where
    c: "export_corners cfg m hn poly (loop_indices poly) st = Inr (f, st1)" and
    t: "fold_err (add_triangle cfg poly f) [0..<length (loop_indices poly) - 2] st1 = Inr st'"
    by blast
  from export_corners_inv [OF assms(1) c] have "dedup_inv m hn st1" .
  moreover from fold_add_triangle_dedup [OF t] have "dedup_inv m hn st' = dedup_inv m hn st1"
    by (intro dedup_inv_cong) simp_all
  ultimately show ?thesis by simp
qed


text \<open>
  Claim C1, as amended. Between any two corners of a material (the invariant \<open>dedup_inv\<close>
  holds of the initial lists and is kept by every corner), the corner \<open>q\<close> of source vertex
  \<open>v\<close> is mapped to the first candidate of \<open>v\<close>, in insertion order, whose stored data
  agree with \<open>q\<close> within the tolerance in every present attribute, and nothing changes;
  when no candidate of \<open>v\<close> agrees, a new welded vertex carrying \<open>q\<close> is appended and
  registered as the last candidate of \<open>v\<close> (unless its index would exceed 65535, which is
  the capacity error).
\<close>

theorem weld_first_match:
  assumes inv: "dedup_inv m hn st"
    and data: "face_corner_data m hn poly l = Inr (v, q)"
  shows "export_corner cfg m hn poly l st =
           (case find (\<lambda>j. agree_within (epsilon cfg) q (vertquad_list st ! j)) (candidates st v) of
              Some j \<Rightarrow> Inr (j, st)
            | None \<Rightarrow>
                if length (vertquad_list st) > 65535 then Inl TooManyVertices
                else Inr (length (vertquad_list st),
                          append_corner hn (mesh_vertex_colors m \<noteq> []) (uv_layers m \<noteq> []) v q st))
         \<and> (\<forall>k st'. export_corner cfg m hn poly l st = Inr (k, st') \<longrightarrow> dedup_inv m hn st')"
proof -
  from face_corner_data_shape [OF data] have shape: "corner_shape m hn q"
    and v: "v < length (vertices m)" by simp_all
  have eq: "export_corner cfg m hn poly l st =
      (case find (\<lambda>j. agree_within (epsilon cfg) q (vertquad_list st ! j)) (candidates st v) of
              Some j \<Rightarrow> Inr (j, st)
            | None \<Rightarrow>
                if length (vertquad_list st) > 65535 then Inl TooManyVertices
                else Inr (length (vertquad_list st),
                          append_corner hn (mesh_vertex_colors m \<noteq> []) (uv_layers m \<noteq> []) v q st))"
    by (simp add: export_corner_def data weld_corner_result [OF inv shape v])
  have "dedup_inv m hn st'" if "export_corner cfg m hn poly l st = Inr (k, st')" for k st'
    using that inv append_corner_inv [OF inv shape v]
    by (auto simp: eq split: option.splits if_splits)
  with eq show ?thesis by blast
qed

text \<open>The first corner of the seam mesh is appended; the corner of the second triangle at
  vertex 0 agrees with it within the tolerance and reuses index 0.\<close>

theorem weld_first_match_witness:
  "export_corner oblivion_cfg seam_mesh True (seam_poly 0) 0 (init_state seam_mesh)
     = Inr (0, append_corner True False True 0 ((0, 0, 0), [(0, 0)], Some (0, 0, 1), None)
                 (init_state seam_mesh))
   \<and> bind_err (export_polygon oblivion_cfg seam_mesh True True 0 (seam_poly 0) (init_state seam_mesh))
        (\<lambda>st. bind_err (export_corner oblivion_cfg seam_mesh True (seam_poly 1) 3 st)
           (\<lambda>(k, st'). Inr (k, st' = st))) = Inr (0, True)"
proof -
  have data0: "face_corner_data seam_mesh True (seam_poly 0) 0
                 = Inr (0, ((0, 0, 0), [(0, 0)], Some (0, 0, 1), None))"
    by (simp add: face_corner_data_def seam_mesh_def seam_poly_def)
  have fresh: "export_corner oblivion_cfg seam_mesh True (seam_poly 0) 0 (init_state seam_mesh)
     = Inr (0, append_corner True False True 0 ((0, 0, 0), [(0, 0)], Some (0, 0, 1), None)
                 (init_state seam_mesh))"
    using weld_first_match [OF dedup_inv_init data0, of oblivion_cfg]
    by (simp add: candidates_def init_state_def seam_mesh_def)
  obtain st where st: "export_polygon oblivion_cfg seam_mesh True True 0 (seam_poly 0)
                          (init_state seam_mesh) = Inr st"
    and vql: "vertquad_list st = [((0, 0, 0), [(0, 0)], Some (0, 0, 1), None),
                                  ((1, 0, 0), [(1, 0)], Some (0, 0, 1), None),
                                  ((1, 1, 0), [(1, 1)], Some (0, 0, 1), None)]"
    and vm: "vertex_map st = [Some [0], Some [1], Some [2], None, None]"
    by (simp add: export_polygon_def export_corner_def weld_corner_def face_corner_data_def
        init_state_def seam_mesh_def seam_poly_def oblivion_cfg_def add_triangle_def)
  from export_polygon_inv [OF dedup_inv_init st] have inv: "dedup_inv seam_mesh True st" .
  have data3: "face_corner_data seam_mesh True (seam_poly 1) 3
                 = Inr (0, ((0, 0, 0), [(0.00008, 0)], Some (0, 0, 1), None))"
    by (simp add: face_corner_data_def seam_mesh_def seam_poly_def)
  have "export_corner oblivion_cfg seam_mesh True (seam_poly 1) 3 st = Inr (0, st)"
    using weld_first_match [OF inv data3, of oblivion_cfg]
    by (simp add: candidates_def vql vm oblivion_cfg_def agree_within_def uv_within_def
        vec3_within_def)
  with st fresh show ?thesis by simp
qed

text \<open>
  Claim C1 as written asks that any two corners of one source vertex that agree within the
  tolerance get the same index. The corners of the second and third triangle at vertex 0
  agree within the tolerance, but the first is welded to the corner of the first triangle
  (index 0), from which the second differs by more than the tolerance, so it gets the new
  index 4.
\<close>

theorem weld_not_transitive_counterexample:
  "face_corner_data seam_mesh True (seam_poly 1) 3
     = Inr (0, ((0, 0, 0), [(0.00008, 0)], Some (0, 0, 1), None))
   \<and> face_corner_data seam_mesh True (seam_poly 2) 6
     = Inr (0, ((0, 0, 0), [(0.00016, 0)], Some (0, 0, 1), None))
   \<and> agree_within (epsilon oblivion_cfg)
        ((0, 0, 0), [(0.00008, 0)], Some (0, 0, 1), None)
        ((0, 0, 0), [(0.00016, 0)], Some (0, 0, 1), None)
   \<and> map_sum id triangles
        (export_polygons oblivion_cfg seam_mesh True True 0 (polygons seam_mesh)
           (init_state seam_mesh))
     = Inr [(0, 1, 2), (0, 2, 3), (4, 3, 5)]"
  by (simp add: export_polygons_def export_polygon_def export_corner_def weld_corner_def
      face_corner_data_def init_state_def seam_mesh_def seam_poly_def oblivion_cfg_def
      is_new_face_corner_data_def max_uv_diff_def vec3_differs_def add_triangle_def
      face_triangle_def agree_within_def uv_within_def vec3_within_def upt_rec)


subsection \<open>The pose position during \<^verbatim>\<open>update_bind_position\<close>\<close>

lemma bone_offsets_sampled:
  "bone_offsets pose_matrix offs store arm bs = Inr ts \<Longrightarrow>
     length ts = length bs \<and>
     (\<forall>i < length bs. \<exists>obj m.
        map_of store (bs ! i) = Some obj \<and>
        pose_matrix (pose_position arm) (b_ref_name obj) = Some m \<and>
        offs m = Inr (ts ! i))"
proof (induction bs arbitrary: ts)
  case Nil
  then show ?case by simp
next
  case (Cons b bs)
  from Cons.prems obtain obj m t ts' where
    obj: "map_of store b = Some obj" and
    m: "pose_matrix (pose_position arm) (b_ref_name obj) = Some m" and
    t: "offs m = Inr t" and
    rest: "bone_offsets pose_matrix offs store arm bs = Inr ts'" and
    ts: "ts = t # ts'"
    by (auto simp: bind_err_eq_Inr split: option.splits)
  from Cons.IH [OF rest] have len: "length ts' = length bs"
    and each: "\<And>i. i < length bs \<Longrightarrow> \<exists>obj m.
        map_of store (bs ! i) = Some obj \<and>
        pose_matrix (pose_position arm) (b_ref_name obj) = Some m \<and>
        offs m = Inr (ts' ! i)"
    by simp_all
  have "\<exists>obj m. map_of store ((b # bs) ! i) = Some obj \<and>
        pose_matrix (pose_position arm) (b_ref_name obj) = Some m \<and>
        offs m = Inr (ts ! i)" if "i < length (b # bs)" for i
  proof (cases i)
    case 0
    with obj m t ts show ?thesis by simp
  next
    case (Suc k)
    with that have "k < length bs" by simp
    from each [OF this] Suc ts show ?thesis by simp
  qed
  with len ts show ?case by simp
qed

text \<open>
  Claim C6, as amended. \<^verbatim>\<open>update_bind_position\<close> leaves the armature as it was when the
  geometry is not skinned, when validation fails before line 539, and when it completes;
  when it completes, every bone transform was computed from the bone's matrix under pose
  position \<open>POSE\<close>, the value line 540 sets. When sampling a bone raises, line 553 is not
  reached and the armature is left with pose position \<open>POSE\<close>.
\<close>

theorem bind_position_restored:
  assumes run: "update_bind_position is_skin geom pose_matrix offset store bs arm = (arm', res)"
  shows "(case res of
            Inr None \<Rightarrow> \<not> is_skin \<and> arm' = arm
          | Inr (Some ts) \<Rightarrow>
              is_skin \<and> arm' = arm \<and> length ts = length bs \<and>
              (\<exists>g. geom = Inr g \<and>
                 (\<forall>i < length bs. \<exists>obj m.
                    map_of store (bs ! i) = Some obj \<and>
                    pose_matrix ''POSE'' (b_ref_name obj) = Some m \<and>
                    offset g m = Inr (ts ! i)))
          | Inl e \<Rightarrow>
              is_skin \<and>
              (geom = Inl e \<and> arm' = arm \<or>
               (\<exists>g. geom = Inr g \<and> arm' = arm\<lparr>pose_position := ''POSE''\<rparr>)))"
proof (cases is_skin)
  case False
  with run show ?thesis by (auto simp: update_bind_position_def)
next
  case True
  show ?thesis
  proof (cases geom)
    case (Inl e)
    with run True show ?thesis by (auto simp: update_bind_position_def)
  next
    case (Inr g)
    let ?posed = "arm\<lparr>pose_position := ''POSE''\<rparr>"
    show ?thesis
    proof (cases "bone_offsets pose_matrix (offset g) store ?posed bs")
      case (Inl e)
      with run True Inr show ?thesis by (auto simp: update_bind_position_def Let_def)
    next
      case ts: (Inr ts)
      from bone_offsets_sampled [OF ts] have
        "length ts = length bs \<and>
         (\<forall>i < length bs. \<exists>obj m.
            map_of store (bs ! i) = Some obj \<and>
            pose_matrix ''POSE'' (b_ref_name obj) = Some m \<and>
            offset g m = Inr (ts ! i))"
        by simp
      with run True Inr ts show ?thesis
        by (auto simp: update_bind_position_def Let_def)
    qed
  qed
qed

theorem bind_position_restored_witness:
  "update_bind_position True (Inr 5) pose_example offset_example
      [(bip01_block, Bone ''Bip01'')] [bip01_block] resting_armature
     = (resting_armature, Inr (Some [(5, 2)]))"
proof -
  obtain arm' res where run:
    "update_bind_position True (Inr (5::real)) pose_example offset_example
      [(bip01_block, Bone ''Bip01'')] [bip01_block] resting_armature = (arm', res)"
    by (cases "update_bind_position True (Inr (5::real)) pose_example offset_example
      [(bip01_block, Bone ''Bip01'')] [bip01_block] resting_armature") blast
  have res: "res = Inr (Some [(5, 2)])"
    using run
    by (simp add: update_bind_position_def pose_example_def offset_example_def Let_def)
  from bind_position_restored [OF run] res have "arm' = resting_armature" by simp
  with run res show ?thesis by simp
qed

text \<open>
  Claim C6 as written has the transforms sampled in the rest pose and the pose position
  restored on the error path. With the armature at \<open>REST\<close>, the transform of \<open>Bip01\<close> is
  computed from its posed matrix \<open>2\<close>, not from its rest matrix \<open>1\<close>; and when the second
  bone is unknown to the block store the call ends in KeyError with the armature left at
  \<open>POSE\<close>.
\<close>

theorem bind_position_counterexample:
  "pose_example ''REST'' ''Bip01'' = Some 1
   \<and> update_bind_position True (Inr 5) pose_example offset_example
        [(bip01_block, Bone ''Bip01'')] [bip01_block] resting_armature
       = (resting_armature, Inr (Some [(5, 2)]))
   \<and> update_bind_position True (Inr 5) pose_example offset_example
        [(bip01_block, Bone ''Bip01'')] [bip01_block, stray_block] resting_armature
       = (\<lparr>pose_position = ''POSE''\<rparr>, Inl KeyError)"
  by (simp add: update_bind_position_def pose_example_def offset_example_def Let_def
      resting_armature_def bip01_block_def stray_block_def)


subsection \<open>Vertex weights\<close>





lemma group_entries_set:
  "(v, w) \<in> set (group_entries gi vs)
     \<longleftrightarrow> v < length vs \<and> group_weight gi (groups (vs ! v)) = Some w"
  by (auto simp: group_entries_def vertex_entry_def split: option.splits)




lemma group_entries_range:
  "(v, w) \<in> set (group_entries gi vs) \<Longrightarrow> v < length vs"
  by (simp add: group_entries_set)





















lemma finish_material_unfold:
  "finish_material cfg b_obj m st =
     (if polygons_without_bodypart st \<noteq> []
      then Inl (UnassignedPolygons (map poly_index (polygons_without_bodypart st)))
      else if length (triangles st) > 65535 then Inl TooManyPolygons
      else if vertex_positions st = [] then Inr None
      else
        bind_err
          (set_geom_data (n_uv_sets cfg) (vertex_positions st) (normals st)
             (vertex_colors st) (uv_coords st) (uv_layers m))
          (\<lambda>data.
             bind_err (export_vertex_weights cfg b_obj m (vertex_map st))
               (\<lambda>skin.
                  Inr (Some \<lparr>shape_data = data\<lparr>data_triangles := triangles st\<rparr>,
                             shape_skin = skin\<rparr>))))"
  by (simp add: finish_material_def select_unassigned_polygons_def)

lemma finish_material_Some:
  assumes "finish_material cfg b_obj m st = Inr (Some shape)"
  shows "polygons_without_bodypart st = [] \<and> length (triangles st) \<le> 65535 \<and>
         vertex_positions st \<noteq> [] \<and>
         (\<exists>data. set_geom_data (n_uv_sets cfg) (vertex_positions st) (normals st)
                    (vertex_colors st) (uv_coords st) (uv_layers m) = Inr data \<and>
                 shape_data shape = data\<lparr>data_triangles := triangles st\<rparr>) \<and>
         export_vertex_weights cfg b_obj m (vertex_map st) = Inr (shape_skin shape)"
proof -
  note u = finish_material_unfold [of cfg b_obj m st]
  have a: "polygons_without_bodypart st = []"
    using assms unfolding u by (cases "polygons_without_bodypart st = []") simp_all
  have b: "\<not> length (triangles st) > 65535"
    using assms a unfolding u by (cases "length (triangles st) > 65535") simp_all
  have c: "vertex_positions st \<noteq> []"
    using assms a b unfolding u by (cases "vertex_positions st = []") simp_all
  from assms a b c have
    "bind_err
          (set_geom_data (n_uv_sets cfg) (vertex_positions st) (normals st)
             (vertex_colors st) (uv_coords st) (uv_layers m))
          (\<lambda>data.
             bind_err (export_vertex_weights cfg b_obj m (vertex_map st))
               (\<lambda>skin.
                  Inr (Some \<lparr>shape_data = data\<lparr>data_triangles := triangles st\<rparr>,
                             shape_skin = skin\<rparr>))) = Inr (Some shape)"
    unfolding u by simp
  then obtain data skin where
    d: "set_geom_data (n_uv_sets cfg) (vertex_positions st) (normals st)
             (vertex_colors st) (uv_coords st) (uv_layers m) = Inr data" and
    s: "export_vertex_weights cfg b_obj m (vertex_map st) = Inr skin" and
    sh: "shape = \<lparr>shape_data = data\<lparr>data_triangles := triangles st\<rparr>, shape_skin = skin\<rparr>"
    unfolding bind_err_eq_Inr by auto
  from a b c d s sh show ?thesis by simp
qed









subsection \<open>The limits of 65535 vertices and 65535 triangles\<close>

text \<open>
  The runs below are over meshes of tens of thousands of triangles, so they are followed by
  an invariant rather than evaluated: on a mesh without UV layers, vertex colours and
  normals every corner of a source vertex welds to the one entry of that vertex.
\<close>

lemma plain_shape:
  assumes "uv_layers m = []" "mesh_vertex_colors m = []" "corner_shape m False q"
  shows "snd q = ([], None, None)"
proof -
  obtain fv fuv fn fc where q: "q = (fv, fuv, fn, fc)" by (cases q)
  from assms have "fuv = []" "fn = None" "fc = None"
    by (simp_all add: corner_shape_def q del: not_None_eq)
  then show ?thesis by (simp add: q)
qed

lemma plain_agree:
  assumes "uv_layers m = []" "mesh_vertex_colors m = []"
    and "corner_shape m False q" "corner_shape m False q'"
  shows "agree_within eps q q'"
  using plain_shape [OF assms(1,2,3)] plain_shape [OF assms(1,2,4)]
  by (cases q; cases q') (simp add: agree_within_def)

lemma corner_step:
  assumes plain: "uv_layers m = []" "mesh_vertex_colors m = []"
    and w: "welded_upto m c st"
    and data: "face_corner_data m False poly l = Inr (v, q)"
    and v: "v \<le> c" and room: "v = c \<longrightarrow> c \<le> 65535"
  shows "\<exists>st'. export_corner cfg m False poly l st = Inr (v, st') \<and>
           welded_upto m (max c (Suc v)) st' \<and>
           triangles st' = triangles st \<and>
           polygons_without_bodypart st' = polygons_without_bodypart st"
proof -
  from w have inv: "dedup_inv m False st" and len: "length (vertquad_list st) = c"
    and cand: "\<And>u. u < length (vertices m) \<Longrightarrow> candidates st u = (if u < c then [u] else [])"
    by (simp_all add: welded_upto_def)
  from face_corner_data_shape [OF data] have shape: "corner_shape m False q"
    and vlen: "v < length (vertices m)" by simp_all
  from inv have shapes: "\<forall>q \<in> set (vertquad_list st). corner_shape m False q"
    and vmlen: "length (vertex_map st) = length (vertices m)"
    by (simp_all add: dedup_inv_def)
  note res = weld_corner_result [OF inv shape vlen, of "epsilon cfg" False False]
  have run: "export_corner cfg m False poly l st =
               weld_corner (epsilon cfg) False False False v q st"
    by (simp add: export_corner_def data plain)
  show ?thesis
  proof (cases "v < c")
    case True
    with len shapes have "corner_shape m False (vertquad_list st ! v)" by simp
    from plain_agree [OF plain shape this]
    have "find (\<lambda>j. agree_within (epsilon cfg) q (vertquad_list st ! j)) (candidates st v) = Some v"
      using True by (simp add: cand [OF vlen])
    with res have "export_corner cfg m False poly l st = Inr (v, st)"
      by (simp add: run)
    moreover from True have "max c (Suc v) = c" by simp
    ultimately show ?thesis using w by simp
  next
    case False
    with v have vc: "v = c" by simp
    with room have c: "c \<le> 65535" by simp
    let ?st' = "append_corner False False False v q st"
    from False have "find (\<lambda>j. agree_within (epsilon cfg) q (vertquad_list st ! j)) (candidates st v) = None"
      by (simp add: cand [OF vlen])
    with res c len have r: "export_corner cfg m False poly l st = Inr (v, ?st')"
      by (simp add: run vc)
    from append_corner_inv [OF inv shape vlen] c len
    have inv': "dedup_inv m False ?st'" by (simp add: plain)
    have len': "length (vertquad_list ?st') = Suc c"
      by (simp add: append_corner_fields len)
    have cand': "candidates ?st' u = (if u < Suc c then [u] else [])"
      if u: "u < length (vertices m)" for u
      using u vmlen cand [OF u] cand [OF vlen] len
      by (simp add: candidates_append_corner vc)
    have "welded_upto m (Suc c) ?st'"
      using inv' len' cand' by (simp add: welded_upto_def)
    moreover have "max c (Suc v) = Suc c" using vc by simp
    moreover have "triangles ?st' = triangles st"
      "polygons_without_bodypart ?st' = polygons_without_bodypart st"
      by (simp_all add: append_corner_def)
    ultimately show ?thesis using r by simp
  qed
qed

lemma corner_overflow:
  assumes plain: "uv_layers m = []" "mesh_vertex_colors m = []"
    and w: "welded_upto m c st"
    and data: "face_corner_data m False poly l = Inr (c, q)"
    and full: "c > 65535"
  shows "export_corner cfg m False poly l st = Inl TooManyVertices"
proof -
  from w have inv: "dedup_inv m False st" and len: "length (vertquad_list st) = c"
    and cand: "\<And>u. u < length (vertices m) \<Longrightarrow> candidates st u = (if u < c then [u] else [])"
    by (simp_all add: welded_upto_def)
  from face_corner_data_shape [OF data] have shape: "corner_shape m False q"
    and vlen: "c < length (vertices m)" by simp_all
  have "find (\<lambda>j. agree_within (epsilon cfg) q (vertquad_list st ! j)) (candidates st c) = None"
    by (simp add: cand [OF vlen])
  with weld_corner_result [OF inv shape vlen, of "epsilon cfg" False False] full len
  show ?thesis
    by (simp add: export_corner_def data plain)
qed

lemma tri_mesh_simps:
  "uv_layers (tri_mesh nv f n) = []" "mesh_vertex_colors (tri_mesh nv f n) = []"
  "length (vertices (tri_mesh nv f n)) = nv"
  "polygons (tri_mesh nv f n) = map tri_poly [0..<n]"
  by (simp_all add: tri_mesh_def)

lemma tri_corner_data:
  assumes "l < 3 * n" "f l < nv"
  shows "\<exists>q. face_corner_data (tri_mesh nv f n) False poly l = Inr (f l, q)"
  using assms by (simp add: face_corner_data_def tri_mesh_def Let_def)

lemma welded_upto_cong:
  assumes "vertex_map st' = vertex_map st" "vertquad_list st' = vertquad_list st"
    "vertex_positions st' = vertex_positions st" "normals st' = normals st"
    "vertex_colors st' = vertex_colors st" "uv_coords st' = uv_coords st"
  shows "welded_upto m c st' = welded_upto m c st"
proof -
  have "dedup_inv m False st' = dedup_inv m False st"
    by (rule dedup_inv_cong) (rule assms)+
  then show ?thesis
    by (simp add: welded_upto_def candidates_def assms)
qed

lemma add_triangle_result:
  assumes "game cfg \<in> {''FALLOUT_3'', ''SKYRIM''} \<and> polygon_parts cfg \<noteq> []
             \<longrightarrow> k < length (polygon_parts cfg)"
  shows "\<exists>st'. add_triangle cfg (tri_poly k) f i st = Inr st' \<and>
           length (triangles st') = Suc (length (triangles st)) \<and>
           polygons_without_bodypart st' = polygons_without_bodypart st @ unassigned cfg k \<and>
           vertex_map st' = vertex_map st \<and> vertquad_list st' = vertquad_list st \<and>
           vertex_positions st' = vertex_positions st \<and> normals st' = normals st \<and>
           vertex_colors st' = vertex_colors st \<and> uv_coords st' = uv_coords st"
proof (cases "game cfg \<notin> {''FALLOUT_3'', ''SKYRIM''} \<or> polygon_parts cfg = []")
  case True
  then show ?thesis
    by (simp add: add_triangle_def Let_def unassigned_def)
next
  case False
  with assms have k: "k < length (polygon_parts cfg)" by blast
  have idx: "poly_index (tri_poly k) = k" by (simp add: tri_poly_def)
  show ?thesis
  proof (cases "polygon_parts cfg ! k \<ge> 0")
    case True
    with False k show ?thesis
      by (simp add: add_triangle_def Let_def unassigned_def idx)
  next
    case neg: False
    with False k show ?thesis
      by (simp add: add_triangle_def Let_def unassigned_def idx)
  qed
qed

lemma tri_step:
  assumes w: "welded_upto (tri_mesh nv f n) c st"
    and k: "k < n"
    and ok: "tri_ok f c k c'" and bound: "c' \<le> 65536" "c' \<le> nv"
    and parts: "game cfg \<in> {''FALLOUT_3'', ''SKYRIM''} \<and> polygon_parts cfg \<noteq> []
             \<longrightarrow> k < length (polygon_parts cfg)"
  shows "\<exists>st'. export_polygon cfg (tri_mesh nv f n) False False 0 (tri_poly k) st = Inr st' \<and>
           welded_upto (tri_mesh nv f n) c' st' \<and>
           length (triangles st') = Suc (length (triangles st)) \<and>
           polygons_without_bodypart st' = polygons_without_bodypart st @ unassigned cfg k"
proof -
  let ?m = "tri_mesh nv f n" and ?p = "tri_poly k"
  let ?a = "f (3 * k)" and ?b = "f (3 * k + 1)" and ?d = "f (3 * k + 2)"
  let ?c1 = "max c (Suc ?a)"
  let ?c2 = "max ?c1 (Suc ?b)"
  from ok have a: "?a \<le> c" and b: "?b \<le> ?c1" and d: "?d \<le> ?c2"
    and c': "c' = max ?c2 (Suc ?d)"
    by (simp_all add: tri_ok_def Let_def)
  from c' bound have lt: "?a < nv" "?b < nv" "?d < nv"
    and room: "?a < 65536" "?b < 65536" "?d < 65536" by simp_all
  from k have l: "3 * k < 3 * n" "3 * k + 1 < 3 * n" "3 * k + 2 < 3 * n" by simp_all
  note plain = tri_mesh_simps(1,2) [of nv f n]
  from tri_corner_data [of "3 * k" n f nv, OF l(1) lt(1)] obtain qa where
    da: "face_corner_data ?m False ?p (3 * k) = Inr (?a, qa)" by blast
  from tri_corner_data [of "3 * k + 1" n f nv, OF l(2) lt(2)] obtain qb where
    db: "face_corner_data ?m False ?p (3 * k + 1) = Inr (?b, qb)" by blast
  from tri_corner_data [of "3 * k + 2" n f nv, OF l(3) lt(3)] obtain qd where
    dd: "face_corner_data ?m False ?p (3 * k + 2) = Inr (?d, qd)" by blast
  have r1: "?a = c \<longrightarrow> c \<le> 65535" using room(1) by linarith
  have r2: "?b = ?c1 \<longrightarrow> ?c1 \<le> 65535" using room(2) by linarith
  have r3: "?d = ?c2 \<longrightarrow> ?c2 \<le> 65535" using room(3) by linarith
  from corner_step [where cfg = cfg, OF plain w da a r1] obtain s1 where
    e1: "export_corner cfg ?m False ?p (3 * k) st = Inr (?a, s1)" and
    w1: "welded_upto ?m ?c1 s1" and
    t1: "triangles s1 = triangles st"
        "polygons_without_bodypart s1 = polygons_without_bodypart st"
    by blast
  from corner_step [where cfg = cfg, OF plain w1 db b r2] obtain s2 where
    e2: "export_corner cfg ?m False ?p (3 * k + 1) s1 = Inr (?b, s2)" and
    w2: "welded_upto ?m ?c2 s2" and
    t2: "triangles s2 = triangles s1"
        "polygons_without_bodypart s2 = polygons_without_bodypart s1"
    by blast
  from corner_step [where cfg = cfg, OF plain w2 dd d r3] obtain s3 where
    e3: "export_corner cfg ?m False ?p (3 * k + 2) s2 = Inr (?d, s3)" and
    w3: "welded_upto ?m c' s3" and
    t3: "triangles s3 = triangles s2"
        "polygons_without_bodypart s3 = polygons_without_bodypart s2"
    unfolding c' by blast
  have li: "loop_indices ?p = [3 * k, 3 * k + 1, 3 * k + 2]" by (simp add: tri_poly_def)
  have corners: "export_corners cfg ?m False ?p (loop_indices ?p) st = Inr ([?a, ?b, ?d], s3)"
    using e1 e2 e3 by (simp add: li)
  from add_triangle_result [OF parts, of "[?a, ?b, ?d]" 0 s3] obtain st' where
    at: "add_triangle cfg ?p [?a, ?b, ?d] 0 s3 = Inr st'" and
    tl: "length (triangles st') = Suc (length (triangles s3))" and
    pw: "polygons_without_bodypart st' = polygons_without_bodypart s3 @ unassigned cfg k" and
    same: "vertex_map st' = vertex_map s3" "vertquad_list st' = vertquad_list s3"
          "vertex_positions st' = vertex_positions s3" "normals st' = normals s3"
          "vertex_colors st' = vertex_colors s3" "uv_coords st' = uv_coords s3"
    by blast
  have "export_polygon cfg ?m False False 0 ?p st =
          bind_err (export_corners cfg ?m False ?p (loop_indices ?p) st) (\<lambda>(f, st').
                fold_err (add_triangle cfg ?p f) [0..<length (loop_indices ?p) - 2] st')"
    by (rule export_polygon_retained) (simp_all add: li)
  also have "\<dots> = Inr st'"
    unfolding corners using at by (simp add: li)
  finally have run: "export_polygon cfg ?m False False 0 ?p st = Inr st'" .
  from w3 have "welded_upto ?m c' st'"
    by (simp only: welded_upto_cong [OF same])
  with run tl pw t1 t2 t3 show ?thesis by simp
qed

lemma welded_init: "welded_upto m 0 (init_state m)"
  by (simp add: welded_upto_def dedup_inv_init) (simp add: init_state_def candidates_def)

lemma tri_run:
  assumes K: "K \<le> n"
    and c0: "cs 0 = 0"
    and ok: "\<And>k. k < K \<Longrightarrow> tri_ok f (cs k) k (cs (Suc k))"
    and bound: "\<And>k. k < K \<Longrightarrow> cs (Suc k) \<le> 65536 \<and> cs (Suc k) \<le> nv"
    and parts: "game cfg \<in> {''FALLOUT_3'', ''SKYRIM''} \<and> polygon_parts cfg \<noteq> []
             \<longrightarrow> K \<le> length (polygon_parts cfg)"
  shows "\<exists>st. export_polygons cfg (tri_mesh nv f n) False False 0 (map tri_poly [0..<K])
                 (init_state (tri_mesh nv f n)) = Inr st \<and>
              welded_upto (tri_mesh nv f n) (cs K) st \<and>
              length (triangles st) = K \<and>
              polygons_without_bodypart st = concat (map (unassigned cfg) [0..<K])"
  using K ok bound parts
proof (induction K)
  case 0
  show ?case
    using welded_init [of "tri_mesh nv f n"]
    by (simp add: export_polygons_def c0) (simp add: init_state_def)
next
  case (Suc K)
  let ?m = "tri_mesh nv f n"
  have "\<exists>st. export_polygons cfg ?m False False 0 (map tri_poly [0..<K]) (init_state ?m) = Inr st \<and>
              welded_upto ?m (cs K) st \<and> length (triangles st) = K \<and>
              polygons_without_bodypart st = concat (map (unassigned cfg) [0..<K])"
  proof (rule Suc.IH)
    show "K \<le> n" using Suc.prems(1) by simp
    show "tri_ok f (cs k) k (cs (Suc k))" if "k < K" for k
      using that Suc.prems(2) [of k] by simp
    show "cs (Suc k) \<le> 65536 \<and> cs (Suc k) \<le> nv" if "k < K" for k
      using that Suc.prems(3) [of k] by simp
    show "game cfg \<in> {''FALLOUT_3'', ''SKYRIM''} \<and> polygon_parts cfg \<noteq> []
             \<longrightarrow> K \<le> length (polygon_parts cfg)"
      using Suc.prems(4) by auto
  qed
  then obtain st where
    run: "export_polygons cfg ?m False False 0 (map tri_poly [0..<K]) (init_state ?m) = Inr st" and
    w: "welded_upto ?m (cs K) st" and t: "length (triangles st) = K" and
    p: "polygons_without_bodypart st = concat (map (unassigned cfg) [0..<K])"
    by blast
  have k: "K < n" using Suc.prems(1) by simp
  have ok': "tri_ok f (cs K) K (cs (Suc K))" using Suc.prems(2) [of K] by simp
  have b: "cs (Suc K) \<le> 65536" "cs (Suc K) \<le> nv" using Suc.prems(3) [of K] by simp_all
  have pr: "game cfg \<in> {''FALLOUT_3'', ''SKYRIM''} \<and> polygon_parts cfg \<noteq> []
             \<longrightarrow> K < length (polygon_parts cfg)"
    using Suc.prems(4) by auto
  from tri_step [OF w k ok' b pr] obtain st' where
    step: "export_polygon cfg ?m False False 0 (tri_poly K) st = Inr st'" and
    w': "welded_upto ?m (cs (Suc K)) st'" and
    t': "length (triangles st') = Suc (length (triangles st))" and
    p': "polygons_without_bodypart st' = polygons_without_bodypart st @ unassigned cfg K"
    by blast
  have "export_polygons cfg ?m False False 0 (map tri_poly [0..<Suc K]) (init_state ?m) =
          bind_err (export_polygons cfg ?m False False 0 (map tri_poly [0..<K]) (init_state ?m))
            (fold_err (export_polygon cfg ?m False False 0) [tri_poly K])"
    by (simp add: export_polygons_def fold_err_append)
  also have "\<dots> = Inr st'"
    unfolding run using step by simp
  finally have "export_polygons cfg ?m False False 0 (map tri_poly [0..<Suc K]) (init_state ?m)
                  = Inr st'" .
  with w' t' t p p' show ?case by simp
qed

lemma tri_overflow:
  assumes w: "welded_upto (tri_mesh nv f n) c st"
    and k: "k < n"
    and a: "f (3 * k) < c" and b: "f (3 * k + 1) < c" and d: "f (3 * k + 2) = c"
    and c: "c > 65535" "c < nv"
  shows "export_polygon cfg (tri_mesh nv f n) False False 0 (tri_poly k) st = Inl TooManyVertices"
proof -
  let ?m = "tri_mesh nv f n" and ?p = "tri_poly k"
  let ?a = "f (3 * k)" and ?b = "f (3 * k + 1)" and ?d = "f (3 * k + 2)"
  from a b d c have lt: "?a < nv" "?b < nv" "?d < nv" by simp_all
  from k have l: "3 * k < 3 * n" "3 * k + 1 < 3 * n" "3 * k + 2 < 3 * n" by simp_all
  note plain = tri_mesh_simps(1,2) [of nv f n]
  from tri_corner_data [of "3 * k" n f nv, OF l(1) lt(1)] obtain qa where
    da: "face_corner_data ?m False ?p (3 * k) = Inr (?a, qa)" by blast
  from tri_corner_data [of "3 * k + 1" n f nv, OF l(2) lt(2)] obtain qb where
    db: "face_corner_data ?m False ?p (3 * k + 1) = Inr (?b, qb)" by blast
  from tri_corner_data [of "3 * k + 2" n f nv, OF l(3) lt(3)] obtain qd where
    dd: "face_corner_data ?m False ?p (3 * k + 2) = Inr (c, qd)" unfolding d by blast
  have ca: "max c (Suc ?a) = c" and cb: "max c (Suc ?b) = c" using a b by simp_all
  have r1: "?a = c \<longrightarrow> c \<le> 65535" using a by simp
  have r2: "?b = c \<longrightarrow> c \<le> 65535" using b by simp
  have a': "?a \<le> c" and b': "?b \<le> c" using a b by simp_all
  from corner_step [where cfg = cfg, OF plain w da a' r1] obtain s1 where
    e1: "export_corner cfg ?m False ?p (3 * k) st = Inr (?a, s1)" and
    w1: "welded_upto ?m c s1"
    unfolding ca by blast
  from corner_step [where cfg = cfg, OF plain w1 db b' r2] obtain s2 where
    e2: "export_corner cfg ?m False ?p (3 * k + 1) s1 = Inr (?b, s2)" and
    w2: "welded_upto ?m c s2"
    unfolding cb by blast
  from corner_overflow [where cfg = cfg, OF plain w2 dd c(1)] have
    e3: "export_corner cfg ?m False ?p (3 * k + 2) s2 = Inl TooManyVertices" .
  have li: "loop_indices ?p = [3 * k, 3 * k + 1, 3 * k + 2]" by (simp add: tri_poly_def)
  have corners: "export_corners cfg ?m False ?p (loop_indices ?p) st = Inl TooManyVertices"
    using e1 e2 e3 by (simp add: li)
  have "export_polygon cfg ?m False False 0 ?p st =
          bind_err (export_corners cfg ?m False ?p (loop_indices ?p) st) (\<lambda>(f, st').
                fold_err (add_triangle cfg ?p f) [0..<length (loop_indices ?p) - 2] st')"
    by (rule export_polygon_retained) (simp_all add: li)
  also have "\<dots> = Inl TooManyVertices"
    unfolding corners by (simp add: li)
  finally show ?thesis .
qed

lemma welded_finish:
  assumes w: "welded_upto m c st" and c: "c > 0"
    and plain: "uv_layers m = []" "n_uv_sets cfg = 0"
    and p: "polygons_without_bodypart st = []" and t: "length (triangles st) \<le> 65535"
  shows "\<exists>shape. finish_material cfg no_skin m st = Inr (Some shape) \<and>
           num_vertices (shape_data shape) = c \<and>
           length (data_vertices (shape_data shape)) = c \<and>
           data_triangles (shape_data shape) = triangles st"
proof -
  from w have "vertex_positions st = map fst (vertquad_list st)" "length (vertquad_list st) = c"
    by (simp_all add: welded_upto_def dedup_inv_def)
  then have len: "length (vertex_positions st) = c" by simp
  with c have ne: "vertex_positions st \<noteq> []" by auto
  have skin: "export_vertex_weights cfg no_skin m (vertex_map st) = Inr None"
    by (simp add: export_vertex_weights_def no_skin_def)
  have geom: "set_geom_data (n_uv_sets cfg) (vertex_positions st) (normals st)
             (vertex_colors st) (uv_coords st) (uv_layers m) =
          Inr \<lparr>num_vertices = length (vertex_positions st),
               data_vertices = vertex_positions st,
               has_normals = (normals st \<noteq> []),
               data_normals = normals st,
               has_vertex_colors = (vertex_colors st \<noteq> []),
               data_vertex_colors = vertex_colors st,
               has_uv = False,
               uv_sets = [],
               data_triangles = []\<rparr>"
    by (simp add: set_geom_data_def plain)
  show ?thesis
    unfolding finish_material_unfold geom skin using p t ne len by simp
qed

lemma export_material_loop:
  assumes "\<not> (game cfg \<in> {''FALLOUT_3'', ''SKYRIM''} \<and> length (uv_layers m) > 1)"
    and "export_polygons cfg m (material_hasnormals cfg b_mat) (b_mat \<noteq> None) i (polygons m)
           (init_state m) = Inr st"
  shows "export_material cfg b_obj m i b_mat = finish_material cfg b_obj m st"
  unfolding export_material_def using assms by (simp only: if_False bind_err_Inr)

lemma export_material_loop_error:
  assumes "\<not> (game cfg \<in> {''FALLOUT_3'', ''SKYRIM''} \<and> length (uv_layers m) > 1)"
    and "export_polygons cfg m (material_hasnormals cfg b_mat) (b_mat \<noteq> None) i (polygons m)
           (init_state m) = Inl e"
  shows "export_material cfg b_obj m i b_mat = Inl e"
  unfolding export_material_def using assms by (simp only: if_False bind_err_Inl)

lemma export_polygons_split:
  assumes "K < n"
    and "export_polygons cfg m hn has_mat i (map tri_poly [0..<K]) st = Inr st1"
    and "export_polygon cfg m hn has_mat i (tri_poly K) st1 = Inl e"
  shows "export_polygons cfg m hn has_mat i (map tri_poly [0..<n]) st = Inl e"
proof -
  from assms(1) have "[0..<n] = [0..<K] @ [K..<n]"
    using upt_add_eq_append [of 0 K "n - K"] by simp
  also from assms(1) have "[K..<n] = K # [Suc K..<n]"
    by (rule upt_conv_Cons)
  finally show ?thesis
    using assms(2,3) by (simp add: export_polygons_def fold_err_append)
qed

lemma unassigned_plain [simp]: "concat (map (unassigned plain_cfg) ks) = []"
  by (induction ks) (simp_all add: unassigned_def plain_cfg_def oblivion_cfg_def)

lemma unassigned_partless:
  assumes "K \<le> n"
  shows "concat (map (unassigned (partless_cfg n)) [0..<K]) = map tri_poly [0..<K]"
proof -
  have eq: "map (unassigned (partless_cfg n)) [0..<K] = map (\<lambda>k. [tri_poly k]) [0..<K]"
    using assms by (intro map_cong) (auto simp: unassigned_def partless_cfg_def)
  show ?thesis unfolding eq by (rule concat_map_singleton)
qed

lemma corner_div_mod:
  "(3 * k) mod 3 = 0" "(3 * k + 1) mod 3 = 1" "(3 * k + 2) mod 3 = 2"
  "(3 * k + 1) div 3 = k" "(3 * k + 2) div 3 = k" for k :: nat
  by presburger+

lemma disc_vertex_simps:
  "disc_vertex (3 * k) = 0" "disc_vertex (3 * k + 1) = k + 1" "disc_vertex (3 * k + 2) = k + 2"
  unfolding disc_vertex_def corner_div_mod by simp_all

lemma disc_ok: "tri_ok disc_vertex (if k = 0 then 0 else k + 2) k (Suc k + 2)"
  unfolding tri_ok_def Let_def disc_vertex_simps by simp

lemma stack_vertex_simps:
  "stack_vertex (3 * k) = 0" "stack_vertex (3 * k + 1) = 1" "stack_vertex (3 * k + 2) = 2"
  unfolding stack_vertex_def corner_div_mod by simp_all

lemma stack_ok: "tri_ok stack_vertex (if k = 0 then 0 else 3) k 3"
  unfolding tri_ok_def Let_def stack_vertex_simps by simp

lemma plain_cfg_simps:
  "game plain_cfg = ''OBLIVION''" "n_uv_sets plain_cfg = 0"
  "material_hasnormals cfg None = False"
  by (simp_all add: plain_cfg_def oblivion_cfg_def material_hasnormals_def)

lemma disc_run:
  assumes "K \<le> n" "K \<le> 65534"
  shows "\<exists>st. export_polygons plain_cfg (disc_mesh n) False False 0 (map tri_poly [0..<K])
                 (init_state (disc_mesh n)) = Inr st \<and>
              welded_upto (disc_mesh n) (if K = 0 then 0 else K + 2) st \<and>
              length (triangles st) = K \<and> polygons_without_bodypart st = []"
proof -
  let ?cs = "\<lambda>k. if k = 0 then 0 else k + (2::nat)"
  have "\<exists>st. export_polygons plain_cfg (tri_mesh (n + 2) disc_vertex n) False False 0
                 (map tri_poly [0..<K]) (init_state (tri_mesh (n + 2) disc_vertex n)) = Inr st \<and>
              welded_upto (tri_mesh (n + 2) disc_vertex n) (?cs K) st \<and>
              length (triangles st) = K \<and>
              polygons_without_bodypart st = concat (map (unassigned plain_cfg) [0..<K])"
  proof (rule tri_run [where cs = ?cs])
    show "K \<le> n" by (rule assms)
    show "?cs 0 = 0" by simp
    show "tri_ok disc_vertex (?cs k) k (?cs (Suc k))" for k
      using disc_ok [of k] by simp
    show "?cs (Suc k) \<le> 65536 \<and> ?cs (Suc k) \<le> n + 2" if "k < K" for k
      using that assms by simp
    show "game plain_cfg \<in> {''FALLOUT_3'', ''SKYRIM''} \<and> polygon_parts plain_cfg \<noteq> []
             \<longrightarrow> K \<le> length (polygon_parts plain_cfg)"
      by (simp add: plain_cfg_simps)
  qed
  then show ?thesis by (simp add: disc_mesh_def split del: if_split)
qed

lemma stack_run:
  assumes "game cfg \<in> {''FALLOUT_3'', ''SKYRIM''} \<and> polygon_parts cfg \<noteq> []
             \<longrightarrow> n \<le> length (polygon_parts cfg)"
  shows "\<exists>st. export_polygons cfg (stack_mesh n) False False 0 (map tri_poly [0..<n])
                 (init_state (stack_mesh n)) = Inr st \<and>
              welded_upto (stack_mesh n) (if n = 0 then 0 else 3) st \<and>
              length (triangles st) = n \<and>
              polygons_without_bodypart st = concat (map (unassigned cfg) [0..<n])"
proof -
  let ?cs = "\<lambda>k. if k = 0 then 0 else (3::nat)"
  have "\<exists>st. export_polygons cfg (tri_mesh 3 stack_vertex n) False False 0
                 (map tri_poly [0..<n]) (init_state (tri_mesh 3 stack_vertex n)) = Inr st \<and>
              welded_upto (tri_mesh 3 stack_vertex n) (?cs n) st \<and>
              length (triangles st) = n \<and>
              polygons_without_bodypart st = concat (map (unassigned cfg) [0..<n])"
  proof (rule tri_run [where cs = ?cs])
    show "n \<le> n" by simp
    show "?cs 0 = 0" by simp
    show "tri_ok stack_vertex (?cs k) k (?cs (Suc k))" for k
      using stack_ok [of k] by simp
    show "?cs (Suc k) \<le> 65536 \<and> ?cs (Suc k) \<le> 3" for k
      by simp
    show "game cfg \<in> {''FALLOUT_3'', ''SKYRIM''} \<and> polygon_parts cfg \<noteq> []
             \<longrightarrow> n \<le> length (polygon_parts cfg)"
      by (rule assms)
  qed
  then show ?thesis by (simp add: stack_mesh_def split del: if_split)
qed

lemma mesh_family_simps:
  "polygons (disc_mesh n) = map tri_poly [0..<n]" "uv_layers (disc_mesh n) = []"
  "polygons (stack_mesh n) = map tri_poly [0..<n]" "uv_layers (stack_mesh n) = []"
  by (simp_all add: disc_mesh_def stack_mesh_def tri_mesh_simps)

lemma disc_export:
  assumes "0 < n" "n \<le> 65534"
  shows "\<exists>shape. export_material plain_cfg no_skin (disc_mesh n) 0 None = Inr (Some shape) \<and>
           num_vertices (shape_data shape) = n + 2 \<and>
           length (data_vertices (shape_data shape)) = n + 2 \<and>
           length (data_triangles (shape_data shape)) = n"
proof -
  from disc_run [of n n] assms obtain st where
    run: "export_polygons plain_cfg (disc_mesh n) False False 0 (map tri_poly [0..<n])
                 (init_state (disc_mesh n)) = Inr st" and
    w: "welded_upto (disc_mesh n) (n + 2) st" and
    t: "length (triangles st) = n" and p: "polygons_without_bodypart st = []"
    by auto
  have "export_material plain_cfg no_skin (disc_mesh n) 0 None =
          finish_material plain_cfg no_skin (disc_mesh n) st"
    by (rule export_material_loop) (simp_all add: plain_cfg_simps mesh_family_simps run)
  moreover from t assms have "length (triangles st) \<le> 65535" by simp
  from welded_finish [OF w _ mesh_family_simps(2) plain_cfg_simps(2) p this]
  obtain shape where "finish_material plain_cfg no_skin (disc_mesh n) st = Inr (Some shape)"
    "num_vertices (shape_data shape) = n + 2"
    "length (data_vertices (shape_data shape)) = n + 2"
    "data_triangles (shape_data shape) = triangles st"
    by auto
  ultimately show ?thesis using t by simp
qed

lemma disc_overflow:
  assumes "n > 65534"
  shows "export_material plain_cfg no_skin (disc_mesh n) 0 None = Inl TooManyVertices"
proof -
  let ?m = "disc_mesh n"
  from disc_run [of 65534 n] assms obtain st where
    run: "export_polygons plain_cfg ?m False False 0 (map tri_poly [0..<65534])
                 (init_state ?m) = Inr st" and
    w: "welded_upto ?m 65536 st"
    by auto
  from w have w': "welded_upto (tri_mesh (n + 2) disc_vertex n) 65536 st"
    by (simp add: disc_mesh_def)
  have a: "disc_vertex (3 * 65534) < 65536" and b: "disc_vertex (3 * 65534 + 1) < 65536"
    and d: "disc_vertex (3 * 65534 + 2) = 65536"
    unfolding disc_vertex_simps by simp_all
  have c: "(65536::nat) > 65535" "65536 < n + 2" using assms by simp_all
  have "export_polygon plain_cfg (tri_mesh (n + 2) disc_vertex n) False False 0
          (tri_poly 65534) st = Inl TooManyVertices"
    by (rule tri_overflow [OF w' assms a b d c])
  then have step: "export_polygon plain_cfg ?m False False 0 (tri_poly 65534) st
                     = Inl TooManyVertices"
    by (simp add: disc_mesh_def)
  have "export_polygons plain_cfg ?m False False 0 (map tri_poly [0..<n]) (init_state ?m)
          = Inl TooManyVertices"
    by (rule export_polygons_split [OF assms run step])
  then show ?thesis
    by (intro export_material_loop_error) (simp_all add: plain_cfg_simps mesh_family_simps)
qed

lemma stack_loop:
  assumes "game cfg \<in> {''FALLOUT_3'', ''SKYRIM''} \<and> polygon_parts cfg \<noteq> []
             \<longrightarrow> n \<le> length (polygon_parts cfg)"
  shows "\<exists>st. export_polygons cfg (stack_mesh n) (material_hasnormals cfg None) ((None :: material option) \<noteq> None) 0
                 (polygons (stack_mesh n)) (init_state (stack_mesh n)) = Inr st \<and>
              welded_upto (stack_mesh n) (if n = 0 then 0 else 3) st \<and>
              length (triangles st) = n \<and>
              polygons_without_bodypart st = concat (map (unassigned cfg) [0..<n])"
  using stack_run [OF assms]
  by (simp add: plain_cfg_simps(3) mesh_family_simps split del: if_split)

lemma partless_cfg_simps:
  "game (partless_cfg n) = ''SKYRIM''" "polygon_parts (partless_cfg n) = replicate n (- 1)"
  by (simp_all add: partless_cfg_def)

lemma poly_index_tri_poly: "map poly_index (map tri_poly ks) = ks"
  by (induction ks) (simp_all add: tri_poly_def)

text \<open>
  Claim C2. A fan of 65534 triangles around one vertex has 65536 vertices, all different; it
  is exported whole, with 65536 vertices, and only a fan of 65535 triangles, whose last
  corner would be the 65537th vertex, raises the error.
\<close>

theorem vertex_limit_off_by_one:
  "map_sum id (map_option (\<lambda>shape. (num_vertices (shape_data shape),
                                       length (data_vertices (shape_data shape)),
                                       length (data_triangles (shape_data shape)))))
     (export_material plain_cfg no_skin (disc_mesh 65534) 0 None) = Inr (Some (65536, 65536, 65534))
   \<and> export_material plain_cfg no_skin (disc_mesh 65535) 0 None = Inl TooManyVertices"
proof -
  from disc_export [of 65534] obtain shape where
    "export_material plain_cfg no_skin (disc_mesh 65534) 0 None = Inr (Some shape)"
    "num_vertices (shape_data shape) = 65536"
    "length (data_vertices (shape_data shape)) = 65536"
    "length (data_triangles (shape_data shape)) = 65534"
    by auto
  moreover have "export_material plain_cfg no_skin (disc_mesh 65535) 0 None = Inl TooManyVertices"
    by (rule disc_overflow) simp
  ultimately show ?thesis by simp
qed

text \<open>
  Claim C7, as amended. When the UV layer check passes and the polygon loop ends, in the
  state \<open>st\<close>: if it has made more than 65535 triangles, the export of the material fails and
  returns no shape, with the error of the unassigned polygons when there is one and with
  the capacity error otherwise; and a shape that is returned has the triangles of \<open>st\<close>, at
  most 65535 of them.
\<close>

theorem too_many_polygons:
  assumes uv: "\<not> (game cfg \<in> {''FALLOUT_3'', ''SKYRIM''} \<and> length (uv_layers m) > 1)"
    and loop: "export_polygons cfg m (material_hasnormals cfg b_mat) (b_mat \<noteq> None) i
                 (polygons m) (init_state m) = Inr st"
  shows "(length (triangles st) > 65535 \<longrightarrow>
            export_material cfg b_obj m i b_mat =
              Inl (if polygons_without_bodypart st = [] then TooManyPolygons
                   else UnassignedPolygons (map poly_index (polygons_without_bodypart st))))
         \<and> (\<forall>shape. export_material cfg b_obj m i b_mat = Inr (Some shape) \<longrightarrow>
               data_triangles (shape_data shape) = triangles st \<and>
               length (data_triangles (shape_data shape)) \<le> 65535)"
proof -
  note run = export_material_loop [OF uv loop, of b_obj]
  have "export_material cfg b_obj m i b_mat =
              Inl (if polygons_without_bodypart st = [] then TooManyPolygons
                   else UnassignedPolygons (map poly_index (polygons_without_bodypart st)))"
    if "length (triangles st) > 65535"
    unfolding run finish_material_unfold using that by simp
  moreover have "data_triangles (shape_data shape) = triangles st \<and>
               length (data_triangles (shape_data shape)) \<le> 65535"
    if "export_material cfg b_obj m i b_mat = Inr (Some shape)" for shape
  proof -
    from that have "finish_material cfg b_obj m st = Inr (Some shape)"
      unfolding run .
    from finish_material_Some [OF this] show ?thesis by auto
  qed
  ultimately show ?thesis by blast
qed

theorem too_many_polygons_witness:
  "export_material plain_cfg no_skin (stack_mesh 65536) 0 None = Inl TooManyPolygons
   \<and> map_sum id (map_option (\<lambda>shape. length (data_triangles (shape_data shape))))
       (export_material plain_cfg no_skin (stack_mesh 65535) 0 None) = Inr (Some 65535)"
proof -
  have parts: "game plain_cfg \<in> {''FALLOUT_3'', ''SKYRIM''} \<and> polygon_parts plain_cfg \<noteq> []
             \<longrightarrow> n \<le> length (polygon_parts plain_cfg)" for n
    by (simp add: plain_cfg_simps)
  have uv: "\<not> (game plain_cfg \<in> {''FALLOUT_3'', ''SKYRIM''} \<and> length (uv_layers (stack_mesh n)) > 1)"
    for n
    by (simp add: plain_cfg_simps)
  from stack_loop [OF parts, of 65536] obtain st where
    loop: "export_polygons plain_cfg (stack_mesh 65536) (material_hasnormals plain_cfg None)
             ((None :: material option) \<noteq> None) 0 (polygons (stack_mesh 65536)) (init_state (stack_mesh 65536)) = Inr st"
    and t: "length (triangles st) = 65536" and p: "polygons_without_bodypart st = []"
    by auto
  from too_many_polygons [OF uv loop, of no_skin] t p
  have big: "export_material plain_cfg no_skin (stack_mesh 65536) 0 None = Inl TooManyPolygons"
    by simp
  from stack_loop [OF parts, of 65535] obtain st' where
    loop': "export_polygons plain_cfg (stack_mesh 65535) (material_hasnormals plain_cfg None)
             ((None :: material option) \<noteq> None) 0 (polygons (stack_mesh 65535)) (init_state (stack_mesh 65535)) = Inr st'"
    and w': "welded_upto (stack_mesh 65535) 3 st'"
    and t': "length (triangles st') = 65535" and p': "polygons_without_bodypart st' = []"
    by auto
  from t' have le: "length (triangles st') \<le> 65535" by simp
  from welded_finish [OF w' _ mesh_family_simps(4) plain_cfg_simps(2) p' le] obtain shape where
    "finish_material plain_cfg no_skin (stack_mesh 65535) st' = Inr (Some shape)"
    by auto
  then have ex: "export_material plain_cfg no_skin (stack_mesh 65535) 0 None = Inr (Some shape)"
    unfolding export_material_loop [OF uv loop', of no_skin] .
  with too_many_polygons [OF uv loop', of no_skin] t'
  have "length (data_triangles (shape_data shape)) = 65535" by simp
  with big ex show ?thesis by simp
qed

theorem unassigned_polygons_first_counterexample:
  "map_sum id (\<lambda>st. length (triangles st))
     (export_polygons (partless_cfg 65536) (stack_mesh 65536)
        (material_hasnormals (partless_cfg 65536) None) ((None :: material option) \<noteq> None) 0
        (polygons (stack_mesh 65536)) (init_state (stack_mesh 65536))) = Inr 65536
   \<and> export_material (partless_cfg 65536) no_skin (stack_mesh 65536) 0 None
       = Inl (UnassignedPolygons [0..<65536])"
proof -
  let ?cfg = "partless_cfg 65536" and ?m = "stack_mesh 65536"
  have parts: "game ?cfg \<in> {''FALLOUT_3'', ''SKYRIM''} \<and> polygon_parts ?cfg \<noteq> []
             \<longrightarrow> 65536 \<le> length (polygon_parts ?cfg)"
    by (simp add: partless_cfg_simps)
  have uv: "\<not> (game ?cfg \<in> {''FALLOUT_3'', ''SKYRIM''} \<and> length (uv_layers ?m) > 1)"
    by (simp add: mesh_family_simps)
  from stack_loop [OF parts] obtain st where
    loop: "export_polygons ?cfg ?m (material_hasnormals ?cfg None)
             ((None :: material option) \<noteq> None) 0 (polygons ?m) (init_state ?m) = Inr st"
    and t: "length (triangles st) = 65536"
    and p: "polygons_without_bodypart st = concat (map (unassigned ?cfg) [0..<65536])"
    by blast
  have p': "polygons_without_bodypart st = map tri_poly [0..<65536]"
    unfolding p by (rule unassigned_partless) simp
  have ne: "map tri_poly [0..<65536] \<noteq> []"
    by (simp only: map_is_Nil_conv upt_eq_Nil_conv) simp
  have "export_material ?cfg no_skin ?m 0 None = Inl (UnassignedPolygons [0..<65536])"
    unfolding export_material_loop [OF uv loop, of no_skin] finish_material_unfold p'
    using ne by (simp only: if_True poly_index_tri_poly not_False_eq_True)
  with loop t show ?thesis by simp
qed

end
